theory Spec2Isabelle
  imports Main "HOL-Library.Char_ord" "HOL-Library.List_Lexorder"
begin

section \<open>The ECMAScript \<open>Date\<close> built-ins used by the store\<close>

text \<open>
  \<^verbatim>\<open>stores/venueInteractionStore.ts\<close> (the second module of \<^verbatim>\<open>src/route.ts\<close>) keeps
  every timestamp as a string and reads the clock with \<^verbatim>\<open>new Date()\<close>. The built-ins
  it calls are not part of the repository, so they are a parameter of the model:
  \<^item> \<open>Date_parse\<close> is \<^verbatim>\<open>Date.parse\<close>: the time value in milliseconds since the epoch, or
    \<open>None\<close> for \<^verbatim>\<open>NaN\<close> (an Invalid Date). Which strings parse is left to the engine.
  \<^item> \<open>toISOString\<close> is \<^verbatim>\<open>Date.prototype.toISOString\<close>.
  \<^item> \<open>localTZA\<close> is the abstract operation \<^verbatim>\<open>LocalTZA(t, isUTC)\<close> of ECMAScript: the offset
    of local time from UTC in milliseconds, at the UTC time \<open>t\<close> when \<open>isUTC\<close> holds and at
    the local time \<open>t\<close> otherwise. It changes with \<open>t\<close> where the zone has daylight-saving
    time.
  A time value is an \<open>int\<close>; a \<^verbatim>\<open>Date\<close> object is an \<open>int option\<close>, \<open>None\<close> being the
  Invalid Date. The clock is read once per store operation: every \<^verbatim>\<open>new Date()\<close> inside
  one synchronous call sees the same \<open>now\<close>.
\<close>

record platform =
  Date_parse :: "string \<Rightarrow> int option"
  toISOString :: "int \<Rightarrow> string"
  localTZA :: "int \<Rightarrow> bool \<Rightarrow> int"

type_synonym Date = "int option"

definition msPerMinute :: int where
  "msPerMinute = 60000"

definition msPerHour :: int where
  "msPerHour = 3600000"

definition msPerDay :: int where
  "msPerDay = 86400000"

text \<open>\<^verbatim>\<open>new Date(s)\<close>. The empty string never parses (\<^verbatim>\<open>Date.parse("")\<close> is \<^verbatim>\<open>NaN\<close>).\<close>

definition newDate :: "platform \<Rightarrow> string \<Rightarrow> Date" where
  "newDate P s = (if s = [] then None else Date_parse P s)"

text \<open>The abstract operations \<^verbatim>\<open>LocalTime(t)\<close> and \<^verbatim>\<open>UTC(t)\<close> of ECMAScript.\<close>

definition LocalTime :: "platform \<Rightarrow> int \<Rightarrow> int" where
  "LocalTime P t = t + localTZA P t True"

definition UTC :: "platform \<Rightarrow> int \<Rightarrow> int" where
  "UTC P t = t - localTZA P t False"

text \<open>
  \<^verbatim>\<open>d.setHours(h, m, 0, 0)\<close>: the local calendar day of \<open>d\<close>, at \<open>h:m:00.000\<close> local time,
  that is \<^verbatim>\<open>UTC(MakeDate(Day(LocalTime(t)), MakeTime(h, m, 0, 0)))\<close>. An Invalid Date stays
  invalid.
\<close>

definition setHours :: "platform \<Rightarrow> Date \<Rightarrow> int \<Rightarrow> int \<Rightarrow> Date" where
  "setHours P d h m =
     map_option (\<lambda>t. UTC P (LocalTime P t - LocalTime P t mod msPerDay
                             + h * msPerHour + m * msPerMinute)) d"

text \<open>
  \<^verbatim>\<open>d.setHours(d.getHours() + n)\<close>: \<open>n\<close> hours are added to the hour field of the local
  time, minutes, seconds and milliseconds are kept, and the local time that results is
  read back as a UTC time.
\<close>

definition addHours :: "platform \<Rightarrow> Date \<Rightarrow> int \<Rightarrow> Date" where
  "addHours P d n = map_option (\<lambda>t. UTC P (LocalTime P t + n * msPerHour)) d"

text \<open>\<^verbatim>\<open>d.setDate(d.getDate() + n)\<close>: the local time of day is kept.\<close>

definition addDays :: "platform \<Rightarrow> Date \<Rightarrow> int \<Rightarrow> Date" where
  "addDays P d n = map_option (\<lambda>t. UTC P (LocalTime P t + n * msPerDay)) d"

text \<open>
  \<^verbatim>\<open>a >= b\<close> and \<^verbatim>\<open>a < b\<close> on \<^verbatim>\<open>Date\<close> objects compare the time values as numbers; a
  comparison with \<^verbatim>\<open>NaN\<close> is false.
\<close>

definition date_ge :: "Date \<Rightarrow> Date \<Rightarrow> bool" where
  "date_ge a b = (case a of None \<Rightarrow> False | Some x \<Rightarrow> (case b of None \<Rightarrow> False | Some y \<Rightarrow> y \<le> x))"

definition date_lt :: "Date \<Rightarrow> Date \<Rightarrow> bool" where
  "date_lt a b = (case a of None \<Rightarrow> False | Some x \<Rightarrow> (case b of None \<Rightarrow> False | Some y \<Rightarrow> x < y))"

subsection \<open>Reference platforms for concrete evaluation\<close>

text \<open>
  The 24-character form \<^verbatim>\<open>YYYY-MM-DDTHH:mm:ss.sssZ\<close> that \<^verbatim>\<open>toISOString\<close> prints for the
  years 0 to 9999 (six signed digits for the year otherwise). \<open>isoParse\<close> reads that
  24-character form only, with the field ranges of the ECMAScript date-time format
  (24:00:00.000 is the end of the day); every other string is an Invalid Date here. The
  day count of a civil date is the usual era-based formula on the proleptic Gregorian
  calendar.
\<close>

definition digit :: "int \<Rightarrow> char" where
  "digit n = ''0123456789'' ! nat (n mod 10)"

fun pad :: "nat \<Rightarrow> int \<Rightarrow> string" where
  "pad 0 n = []"
| "pad (Suc w) n = pad w (n div 10) @ [digit n]"

definition digitValue :: "char \<Rightarrow> int option" where
  "digitValue c = map_of (zip ''0123456789'' [0, 1, 2, 3, 4, 5, 6, 7, 8, 9]) c"

definition number :: "string \<Rightarrow> int option" where
  "number cs =
     fold (\<lambda>c acc. case acc of None \<Rightarrow> None
                    | Some a \<Rightarrow> (case digitValue c of None \<Rightarrow> None | Some d \<Rightarrow> Some (10 * a + d)))
       cs (Some 0)"

definition daysFromCivil :: "int \<Rightarrow> int \<Rightarrow> int \<Rightarrow> int" where
  "daysFromCivil y m d =
     (let y' = (if m \<le> 2 then y - 1 else y);
          era = y' div 400;
          yoe = y' - era * 400;
          doy = (153 * (if m > 2 then m - 3 else m + 9) + 2) div 5 + d - 1;
          doe = yoe * 365 + yoe div 4 - yoe div 100 + doy
      in era * 146097 + doe - 719468)"

definition civilFromDays :: "int \<Rightarrow> int \<times> int \<times> int" where
  "civilFromDays z0 =
     (let z = z0 + 719468;
          era = z div 146097;
          doe = z - era * 146097;
          yoe = (doe - doe div 1460 + doe div 36524 - doe div 146096) div 365;
          doy = doe - (365 * yoe + yoe div 4 - yoe div 100);
          mp = (5 * doy + 2) div 153;
          d = doy - (153 * mp + 2) div 5 + 1;
          m = (if mp < 10 then mp + 3 else mp - 9);
          y = yoe + era * 400
      in (if m \<le> 2 then y + 1 else y, m, d))"

definition daysInMonth :: "int \<Rightarrow> int \<Rightarrow> int" where
  "daysInMonth y m = daysFromCivil (if m = 12 then y + 1 else y) (if m = 12 then 1 else m + 1) 1
                     - daysFromCivil y m 1"

definition isoString :: "int \<Rightarrow> string" where
  "isoString t =
     (let days = t div msPerDay;
          r = t mod msPerDay;
          (y, m, d) = civilFromDays days;
          year = (if 0 \<le> y \<and> y \<le> 9999 then pad 4 y
                  else (if y < 0 then ''-'' else ''+'') @ pad 6 \<bar>y\<bar>)
      in year @ ''-'' @ pad 2 m @ ''-'' @ pad 2 d @ ''T''
         @ pad 2 (r div 3600000) @ '':'' @ pad 2 (r div 60000 mod 60) @ '':''
         @ pad 2 (r div 1000 mod 60) @ ''.'' @ pad 3 (r mod 1000) @ ''Z'')"

definition isoParse :: "string \<Rightarrow> int option" where
  "isoParse s =
     (if length s = 24 \<and> map (\<lambda>i. s ! i) [4, 7, 10, 13, 16, 19, 23] = ''--T::.Z'' then
        (case those (map number [take 4 s, take 2 (drop 5 s), take 2 (drop 8 s), take 2 (drop 11 s),
                                 take 2 (drop 14 s), take 2 (drop 17 s), take 3 (drop 20 s)]) of
           Some [y, m, d, h, mi, sec, ms] \<Rightarrow>
             (if 1 \<le> m \<and> m \<le> 12 \<and> 1 \<le> d \<and> d \<le> daysInMonth y m
                 \<and> (h \<le> 23 \<or> h = 24 \<and> mi = 0 \<and> sec = 0 \<and> ms = 0) \<and> mi \<le> 59 \<and> sec \<le> 59
              then Some (daysFromCivil y m d * msPerDay
                         + h * msPerHour + mi * msPerMinute + sec * 1000 + ms)
              else None)
         | _ \<Rightarrow> None)
      else None)"

text \<open>A device whose local zone is UTC.\<close>

definition utcPlatform :: platform where
  "utcPlatform = \<lparr> Date_parse = isoParse, toISOString = isoString, localTZA = (\<lambda>t isUTC. 0) \<rparr>"

text \<open>
  A device in New York under the rules of 2024: Eastern Standard Time (UTC - 5h) until
  2024-03-10T07:00:00Z, Eastern Daylight Time (UTC - 4h) until 2024-11-03T06:00:00Z,
  and standard time again after it. A local time that the spring change skips or the
  autumn change repeats is read with the offset before the change, as ECMAScript
  requires of \<^verbatim>\<open>LocalTZA(t, false)\<close>.
\<close>

definition newYork2024 :: platform where
  "newYork2024 =
     \<lparr> Date_parse = isoParse, toISOString = isoString,
       localTZA = (\<lambda>t isUTC.
          let u = (if isUTC then t else t + 14400000)
          in if u < 1710054000000 then - 18000000
             else if u < 1730613600000 then - 14400000
             else - 18000000) \<rparr>"

section \<open>The data model\<close>

text \<open>
  \<^verbatim>\<open>interface VenueInteraction\<close>. The counters are JavaScript numbers that only ever hold
  integers; an optional field is an \<open>option\<close> (\<open>None\<close> for \<^verbatim>\<open>undefined\<close>).
\<close>

record VenueInteraction =
  venueId :: string
  count :: int
  lastReset :: string
  lastInteraction :: string
  arrivalTime :: "string option"
  likes :: int
  timestamp :: string
  lastLikeReset :: string
  dailyLikesUsed :: int
  likeTimeSlot :: "string option"

text \<open>
  The store's \<^verbatim>\<open>interactions\<close> array. The code guards every read with \<^verbatim>\<open>i && ...\<close> and
  drops falsy entries with \<^verbatim>\<open>.filter(Boolean)\<close>, so an entry may be \<^verbatim>\<open>null\<close>: \<open>None\<close>.
\<close>

type_synonym interactions = "VenueInteraction option list"

text \<open>What a store action hands back to its caller.\<close>

datatype returned = Undefined | Boolean bool

definition RESET_HOUR :: int where
  "RESET_HOUR = 5"

definition LIKE_RESET_HOUR :: int where
  "LIKE_RESET_HOUR = 4"

definition LIKE_RESET_MINUTE :: int where
  "LIKE_RESET_MINUTE = 59"

definition INTERACTION_COOLDOWN_HOURS :: int where
  "INTERACTION_COOLDOWN_HOURS = 2"

definition DAILY_LIKE_LIMIT :: int where
  "DAILY_LIKE_LIMIT = 1"

text \<open>\<^verbatim>\<open>a || b\<close> on strings (the empty string is falsy) and \<^verbatim>\<open>n || 0\<close> on numbers.\<close>

definition orString :: "string \<Rightarrow> string \<Rightarrow> string" where
  "orString a b = (if a \<noteq> [] then a else b)"

definition orZero :: "int \<Rightarrow> int" where
  "orZero n = (if n \<noteq> 0 then n else 0)"

text \<open>\<^verbatim>\<open>a || b\<close> on optional strings: \<^verbatim>\<open>undefined\<close> and the empty string are falsy.\<close>

definition truthy :: "string option \<Rightarrow> bool" where
  "truthy a = (case a of None \<Rightarrow> False | Some s \<Rightarrow> s \<noteq> [])"

definition orOption :: "string option \<Rightarrow> string option \<Rightarrow> string option" where
  "orOption a b = (if truthy a then a else b)"

section \<open>The time-window policy\<close>

definition shouldReset :: "platform \<Rightarrow> int \<Rightarrow> string \<Rightarrow> bool" where
  "shouldReset P now lastReset' =
     (let lastResetDate = newDate P lastReset';
          resetTime = setHours P (Some now) RESET_HOUR 0
      in date_ge (Some now) resetTime \<and> date_lt lastResetDate resetTime)"

definition shouldResetLikes :: "platform \<Rightarrow> int \<Rightarrow> string \<Rightarrow> bool" where
  "shouldResetLikes P now lastLikeReset' =
     (let lastResetDate = newDate P lastLikeReset';
          resetTime = setHours P (Some now) LIKE_RESET_HOUR LIKE_RESET_MINUTE
      in if date_ge (Some now) resetTime \<and> date_lt lastResetDate resetTime then True
         else if date_lt (Some now) resetTime then
           (let yesterdayResetTime = addDays P resetTime (- 1)
            in date_lt lastResetDate yesterdayResetTime)
         else False)"

definition canInteractWithVenue :: "platform \<Rightarrow> int \<Rightarrow> string option \<Rightarrow> bool" where
  "canInteractWithVenue P now lastInteraction' =
     (if \<not> truthy lastInteraction' then True
      else (let lastInteractionDate = newDate P (the lastInteraction');
                cooldownTime = addHours P lastInteractionDate INTERACTION_COOLDOWN_HOURS
            in date_ge (Some now) cooldownTime))"

section \<open>The store\<close>

text \<open>\<^verbatim>\<open>interactions.find(i => i && i.venueId === venueId)\<close>\<close>

fun findInteraction :: "string \<Rightarrow> interactions \<Rightarrow> VenueInteraction option" where
  "findInteraction v [] = None"
| "findInteraction v (None # xs) = findInteraction v xs"
| "findInteraction v (Some i # xs) = (if venueId i = v then Some i else findInteraction v xs)"

text \<open>\<^verbatim>\<open>.filter(Boolean)\<close>\<close>

definition filterBoolean :: "interactions \<Rightarrow> interactions" where
  "filterBoolean xs = filter (\<lambda>i. i \<noteq> None) xs"

text \<open>The body of the \<^verbatim>\<open>map\<close> in \<^verbatim>\<open>resetInteractionsIfNeeded\<close>, for a non-null entry.\<close>

definition resetInteraction :: "platform \<Rightarrow> int \<Rightarrow> VenueInteraction \<Rightarrow> VenueInteraction" where
  "resetInteraction P now i =
     (let shouldResetInteraction = shouldReset P now (lastReset i);
          shouldResetLikesForVenue = shouldResetLikes P now (orString (lastLikeReset i) (lastReset i));
          nowS = toISOString P now
      in i\<lparr> count := (if shouldResetInteraction then 0 else count i),
            lastReset := (if shouldResetInteraction then nowS else lastReset i),
            arrivalTime := (if shouldResetInteraction then None else arrivalTime i),
            lastLikeReset := (if shouldResetLikesForVenue then nowS
                              else orString (lastLikeReset i) (lastReset i)),
            dailyLikesUsed := (if shouldResetLikesForVenue then 0 else orZero (dailyLikesUsed i)),
            likeTimeSlot := (if shouldResetLikesForVenue then None else likeTimeSlot i) \<rparr>)"

definition resetInteractionsIfNeeded :: "platform \<Rightarrow> int \<Rightarrow> interactions \<Rightarrow> interactions" where
  "resetInteractionsIfNeeded P now xs =
     (let needsReset =
            list_ex (\<lambda>i. case i of None \<Rightarrow> False | Some r \<Rightarrow> shouldReset P now (lastReset r)) xs;
          needsLikeReset =
            list_ex (\<lambda>i. case i of None \<Rightarrow> False
                          | Some r \<Rightarrow> shouldResetLikes P now (orString (lastLikeReset r) (lastReset r))) xs
      in if needsReset \<or> needsLikeReset then
           filterBoolean (map (map_option (resetInteraction P now)) (filterBoolean xs))
         else xs)"

text \<open>
  \<^verbatim>\<open>canInteract\<close> and \<^verbatim>\<open>canLikeVenue\<close> run the reset pass before they read, so they return
  the answer together with the store they leave behind.
\<close>

definition canInteract :: "platform \<Rightarrow> int \<Rightarrow> string \<Rightarrow> interactions \<Rightarrow> bool \<times> interactions" where
  "canInteract P now v xs =
     (if v = [] then (False, xs)
      else (let xs' = resetInteractionsIfNeeded P now xs;
                interaction = findInteraction v xs'
            in (canInteractWithVenue P now (map_option lastInteraction interaction), xs')))"

definition canLikeVenue :: "platform \<Rightarrow> int \<Rightarrow> string \<Rightarrow> interactions \<Rightarrow> bool \<times> interactions" where
  "canLikeVenue P now v xs =
     (if v = [] then (False, xs)
      else (let xs' = resetInteractionsIfNeeded P now xs
            in case findInteraction v xs' of
                 None \<Rightarrow> (True, xs')
               | Some interaction \<Rightarrow>
                   (let shouldResetLikesForVenue =
                          shouldResetLikes P now (orString (lastLikeReset interaction) (lastReset interaction));
                        dailyLikesUsed' = (if shouldResetLikesForVenue then 0
                                           else orZero (dailyLikesUsed interaction))
                    in (dailyLikesUsed' < DAILY_LIKE_LIMIT, xs'))))"

text \<open>
  \<^verbatim>\<open>incrementInteraction\<close> and \<^verbatim>\<open>likeVenue\<close> are declared \<^verbatim>\<open>=> void\<close>: every path ends in a
  bare \<^verbatim>\<open>return\<close> or falls off the end. The debounced XP and achievement callbacks, the
  mock \<^verbatim>\<open>syncToSupabase\<close> and \<^verbatim>\<open>forceUpdate\<close> do not touch \<^verbatim>\<open>interactions\<close>.
\<close>

definition incrementInteraction ::
    "platform \<Rightarrow> int \<Rightarrow> string \<Rightarrow> string option \<Rightarrow> interactions \<Rightarrow> returned \<times> interactions" where
  "incrementInteraction P now v arrivalTime' xs =
     (if v = [] then (Undefined, xs)
      else (let xs1 = resetInteractionsIfNeeded P now xs;
                (ok, xs2) = canInteract P now v xs1
            in if \<not> ok then (Undefined, xs2)
               else (let nowS = toISOString P now
                     in case findInteraction v xs2 of
                          Some existingInteraction \<Rightarrow>
                            (Undefined,
                             filterBoolean
                               (map (\<lambda>i. case i of None \<Rightarrow> None
                                          | Some r \<Rightarrow>
                                              if venueId r = v
                                              then Some (r\<lparr> count := count r + 1,
                                                            lastInteraction := nowS,
                                                            arrivalTime := orOption arrivalTime' (arrivalTime r),
                                                            timestamp := nowS \<rparr>)
                                              else Some r) xs2))
                        | None \<Rightarrow>
                            (Undefined,
                             filterBoolean xs2 @
                             [Some \<lparr> venueId = v, count = 1, lastReset = nowS, lastInteraction = nowS,
                                     arrivalTime = arrivalTime', likes = 0, timestamp = nowS,
                                     lastLikeReset = nowS, dailyLikesUsed = 0,
                                     likeTimeSlot = None \<rparr>]))))"

definition likeVenue ::
    "platform \<Rightarrow> int \<Rightarrow> string \<Rightarrow> string \<Rightarrow> interactions \<Rightarrow> returned \<times> interactions" where
  "likeVenue P now v timeSlot xs =
     (if v = [] \<or> timeSlot = [] then (Undefined, xs)
      else (let (ok, xs1) = canLikeVenue P now v xs
            in if \<not> ok then (Undefined, xs1)
               else (let nowS = toISOString P now
                     in case findInteraction v xs1 of
                          Some existingInteraction \<Rightarrow>
                            (let shouldResetLikesForVenue =
                                   shouldResetLikes P now (lastLikeReset existingInteraction);
                                 dailyLikesUsed' = (if shouldResetLikesForVenue then 0
                                                    else dailyLikesUsed existingInteraction)
                             in (Undefined,
                                 filterBoolean
                                   (map (\<lambda>i. case i of None \<Rightarrow> None
                                              | Some r \<Rightarrow>
                                                  if venueId r = v
                                                  then Some (r\<lparr> likes := likes r + 1,
                                                                timestamp := nowS,
                                                                lastLikeReset :=
                                                                  (if shouldResetLikesForVenue then nowS
                                                                   else lastLikeReset r),
                                                                dailyLikesUsed := dailyLikesUsed' + 1,
                                                                likeTimeSlot := Some timeSlot \<rparr>)
                                                  else Some r) xs1)))
                        | None \<Rightarrow>
                            (Undefined,
                             filterBoolean xs1 @
                             [Some \<lparr> venueId = v, count = 0, lastReset = nowS, lastInteraction = [],
                                     arrivalTime = None, likes = 1, timestamp = nowS,
                                     lastLikeReset = nowS, dailyLikesUsed = 1,
                                     likeTimeSlot = Some timeSlot \<rparr>]))))"

definition getInteractionCount :: "platform \<Rightarrow> int \<Rightarrow> string \<Rightarrow> interactions \<Rightarrow> int \<times> interactions" where
  "getInteractionCount P now v xs =
     (if v = [] then (0, xs)
      else (let xs' = resetInteractionsIfNeeded P now xs
            in (case findInteraction v xs' of None \<Rightarrow> 0 | Some interaction \<Rightarrow> count interaction, xs')))"

definition getLikeCount :: "string \<Rightarrow> interactions \<Rightarrow> int" where
  "getLikeCount v xs =
     (if v = [] then 0
      else (case findInteraction v xs of None \<Rightarrow> 0 | Some interaction \<Rightarrow> likes interaction))"

definition getTotalLikes :: "interactions \<Rightarrow> int" where
  "getTotalLikes xs =
     fold (\<lambda>interaction total. total + (case interaction of None \<Rightarrow> 0 | Some r \<Rightarrow> orZero (likes r)))
       (filterBoolean xs) 0"

text \<open>The entries that pass an \<^verbatim>\<open>i && ...\<close> guard.\<close>

definition nonNull :: "interactions \<Rightarrow> VenueInteraction list" where
  "nonNull xs = map the (filter (\<lambda>i. i \<noteq> None) xs)"

text \<open>
  \<^verbatim>\<open>Array.prototype.sort\<close> with the comparator \<^verbatim>\<open>(a, b) => b.likes - a.likes\<close> is a stable
  sort by descending \<open>likes\<close> (stability is required since ES2019); \<open>sort_key\<close> is the
  stable insertion sort. An entry of the result is the pair \<open>(venueId, likes)\<close>.
\<close>

definition getMostPopularVenues :: "interactions \<Rightarrow> (string \<times> int) list" where
  "getMostPopularVenues xs =
     take 10
       (sort_key (\<lambda>a. - snd a)
          (map (\<lambda>i. (venueId i, orZero (likes i)))
             (filter (\<lambda>i. venueId i \<noteq> []) (nonNull xs))))"

text \<open>
  \<^verbatim>\<open>timeCounts\<close> is a plain object \<^verbatim>\<open>{}\<close> used as a table, so its prototype is
  \<^verbatim>\<open>Object.prototype\<close>, whose members every read \<^verbatim>\<open>timeCounts[k]\<close> can see. The table is
  kept as the list of the object's own properties in insertion order. A value is a
  number, or the string that \<^verbatim>\<open>+\<close> makes of an inherited member and a number (such as
  \<^verbatim>\<open>"function Object() { [native code] }3"\<close>): that string is never empty and never
  numeric, which is all the code observes of it.
\<close>

datatype counted = Count int | Text

definition objectPrototypeMembers :: "string list" where
  "objectPrototypeMembers =
     [''constructor'', ''hasOwnProperty'', ''isPrototypeOf'', ''propertyIsEnumerable'',
      ''toLocaleString'', ''toString'', ''valueOf'', ''__defineGetter__'', ''__defineSetter__'',
      ''__lookupGetter__'', ''__lookupSetter__'', ''__proto__'']"

text \<open>
  \<^verbatim>\<open>(timeCounts[k] || 0) + n\<close>: an own number is added to; an own string, or a member
  inherited from \<^verbatim>\<open>Object.prototype\<close> (a function or an object, so truthy), is
  concatenated with; a missing key counts from 0.
\<close>

definition plusCount :: "(string \<times> counted) list \<Rightarrow> string \<Rightarrow> int \<Rightarrow> counted" where
  "plusCount tc k n =
     (case map_of tc k of
        Some (Count c) \<Rightarrow> Count (orZero c + n)
      | Some Text \<Rightarrow> Text
      | None \<Rightarrow> if k \<in> set objectPrototypeMembers then Text else Count (orZero 0 + n))"

text \<open>
  \<^verbatim>\<open>timeCounts[k] = v\<close>: the own property is written, or created after the others. The
  key \<^verbatim>\<open>__proto__\<close> is the accessor of \<^verbatim>\<open>Object.prototype\<close>: its setter ignores a value
  that is a number or a string, and no own property is made.
\<close>

fun assign :: "string \<Rightarrow> counted \<Rightarrow> (string \<times> counted) list \<Rightarrow> (string \<times> counted) list" where
  "assign k v [] = (if k = ''__proto__'' then [] else [(k, v)])"
| "assign k v ((k', c) # kvs) = (if k' = k then (k', v) # kvs else (k', c) # assign k v kvs)"

definition addCount :: "string \<Rightarrow> int \<Rightarrow> (string \<times> counted) list \<Rightarrow> (string \<times> counted) list" where
  "addCount k n tc = assign k (plusCount tc k n) tc"

text \<open>
  \<^verbatim>\<open>Math.max(...values)\<close> of at least one value: \<open>None\<close> is \<^verbatim>\<open>NaN\<close>, which a string that
  is not numeric makes of the whole maximum. \<^verbatim>\<open>count === maxCount\<close> is false for a string
  and for \<^verbatim>\<open>NaN\<close>.
\<close>

definition Math_max :: "counted \<Rightarrow> counted list \<Rightarrow> int option" where
  "Math_max c cs =
     fold (\<lambda>v acc. case acc of None \<Rightarrow> None
                    | Some m \<Rightarrow> (case v of Count x \<Rightarrow> Some (max m x) | Text \<Rightarrow> None))
       cs (case c of Count x \<Rightarrow> Some x | Text \<Rightarrow> None)"

definition strictEquals :: "counted \<Rightarrow> int option \<Rightarrow> bool" where
  "strictEquals v m = (case v of Text \<Rightarrow> False | Count x \<Rightarrow> (case m of None \<Rightarrow> False | Some y \<Rightarrow> x = y))"

text \<open>\<^verbatim>\<open>Array.prototype.join\<close>\<close>

fun join :: "string \<Rightarrow> string list \<Rightarrow> string" where
  "join sep [] = []"
| "join sep [x] = x"
| "join sep (x # y # ys) = x @ sep @ join sep (y # ys)"

text \<open>
  \<^verbatim>\<open>getPopularArrivalTime\<close>; \<open>None\<close> is \<^verbatim>\<open>null\<close>. \<^verbatim>\<open>Object.keys(timeCounts).length === 0\<close>
  is the empty table. The default \<^verbatim>\<open>.sort()\<close> orders strings by their code units, which
  is the lexicographic order of \<open>string\<close>; the keys are distinct, so the order in which
  \<^verbatim>\<open>Object.entries\<close> lists them does not show in the result.
\<close>

definition getPopularArrivalTime :: "string \<Rightarrow> interactions \<Rightarrow> string option" where
  "getPopularArrivalTime v xs =
     (if v = [] then None
      else (let allInteractions =
                  filter (\<lambda>i. venueId i = v \<and> truthy (arrivalTime i) \<and> count i > 0) (nonNull xs)
            in if length allInteractions = 0 then None
               else (let timeCounts =
                           fold (\<lambda>interaction tc.
                                   if truthy (arrivalTime interaction)
                                   then addCount (the (arrivalTime interaction))
                                          (orZero (count interaction)) tc
                                   else tc)
                             allInteractions []
                     in case map snd timeCounts of
                          [] \<Rightarrow> None
                        | c # cs \<Rightarrow>
                            (let maxCount = Math_max c cs;
                                 popularTimes =
                                   sort (map fst (filter (\<lambda>(time, count'). strictEquals count' maxCount)
                                                    timeCounts))
                             in Some (join ''/'' popularTimes)))))"

section \<open>Callers\<close>

text \<open>
  A caller of the store: each call reads the clock once. The state a call leaves behind
  is what the next call, at any later or earlier clock reading, starts from.
\<close>

datatype call =
    LikeVenue string string
  | IncrementInteraction string "string option"
  | ResetInteractionsIfNeeded
  | CanLikeVenue string
  | CanInteract string
  | GetInteractionCount string

fun perform :: "platform \<Rightarrow> int \<times> call \<Rightarrow> interactions \<Rightarrow> interactions" where
  "perform P (now, LikeVenue v timeSlot) xs = snd (likeVenue P now v timeSlot xs)"
| "perform P (now, IncrementInteraction v a) xs = snd (incrementInteraction P now v a xs)"
| "perform P (now, ResetInteractionsIfNeeded) xs = resetInteractionsIfNeeded P now xs"
| "perform P (now, CanLikeVenue v) xs = snd (canLikeVenue P now v xs)"
| "perform P (now, CanInteract v) xs = snd (canInteract P now v xs)"
| "perform P (now, GetInteractionCount v) xs = snd (getInteractionCount P now v xs)"

definition performAll :: "platform \<Rightarrow> (int \<times> call) list \<Rightarrow> interactions \<Rightarrow> interactions" where
  "performAll P calls xs = fold (perform P) calls xs"

text \<open>The invariant of the data model: \<open>0 \<le> dailyLikesUsed \<le> DAILY_LIKE_LIMIT\<close> on every record.\<close>

definition withinLikeLimit :: "VenueInteraction option \<Rightarrow> bool" where
  "withinLikeLimit i =
     (case i of None \<Rightarrow> True | Some r \<Rightarrow> 0 \<le> dailyLikesUsed r \<and> dailyLikesUsed r \<le> DAILY_LIKE_LIMIT)"

text \<open>
  The boundaries of the like window as \<^verbatim>\<open>shouldResetLikes\<close> computes them: today's is
  04:59:00.000 local time on the local calendar day of \<open>now\<close>, yesterday's is today's
  moved back one local calendar day, and the last one is today's once \<open>now\<close> has reached
  it and yesterday's before.
\<close>

definition todaysLikeBoundary :: "platform \<Rightarrow> int \<Rightarrow> int" where
  "todaysLikeBoundary P now =
     UTC P (LocalTime P now - LocalTime P now mod msPerDay
            + LIKE_RESET_HOUR * msPerHour + LIKE_RESET_MINUTE * msPerMinute)"

definition yesterdaysLikeBoundary :: "platform \<Rightarrow> int \<Rightarrow> int" where
  "yesterdaysLikeBoundary P now = UTC P (LocalTime P (todaysLikeBoundary P now) + (- 1) * msPerDay)"

definition lastLikeBoundary :: "platform \<Rightarrow> int \<Rightarrow> int" where
  "lastLikeBoundary P now =
     (if todaysLikeBoundary P now \<le> now then todaysLikeBoundary P now
      else yesterdaysLikeBoundary P now)"

text \<open>The stamp the like window of a record is measured from: \<^verbatim>\<open>i.lastLikeReset || i.lastReset\<close>.\<close>

definition likeStamp :: "VenueInteraction \<Rightarrow> string" where
  "likeStamp i = orString (lastLikeReset i) (lastReset i)"

section \<open>Example data\<close>

text \<open>
  Clock readings on 2024-03-10 (UTC), in milliseconds since the epoch, and a record left
  by the evening before.
\<close>

definition at_0300 :: int where
  "at_0300 = 1710039600000"

definition at_0430 :: int where
  "at_0430 = 1710045000000"

definition at_0530 :: int where
  "at_0530 = 1710048600000"

definition bar1Yesterday :: VenueInteraction where
  "bar1Yesterday =
     \<lparr> venueId = ''bar1'', count = 2, lastReset = ''2024-03-09T20:00:00.000Z'',
       lastInteraction = ''2024-03-09T22:30:00.000Z'', arrivalTime = Some ''21:00'', likes = 3,
       timestamp = ''2024-03-09T22:30:00.000Z'', lastLikeReset = ''2024-03-09T20:00:00.000Z'',
       dailyLikesUsed = 1, likeTimeSlot = Some ''21:00'' \<rparr>"

text \<open>The \<open>count\<close> field of the entity's record as it stands, with no reset pass run.\<close>

definition visitCount :: "string \<Rightarrow> interactions \<Rightarrow> int option" where
  "visitCount v xs = map_option count (findInteraction v xs)"

text \<open>
  Two clock readings in New York, each shortly before the clocks change: 01:30 EST on
  2024-03-10 (06:30 UTC) and 00:30 EDT on 2024-11-03 (04:30 UTC); and the store after a
  first check-in at bar1 on that device.
\<close>

definition newYork_0130_EST :: int where
  "newYork_0130_EST = 1710052200000"

definition newYork_0030_EDT :: int where
  "newYork_0030_EDT = 1730608200000"

definition bar1VisitedInNewYork :: "int \<Rightarrow> interactions" where
  "bar1VisitedInNewYork T = snd (incrementInteraction newYork2024 T ''bar1'' (Some ''21:00'') [])"

text \<open>A record whose \<open>lastInteraction\<close> came back corrupt from storage.\<close>

definition bar1Corrupt :: VenueInteraction where
  "bar1Corrupt = bar1Yesterday \<lparr> lastInteraction := ''not-a-date'' \<rparr>"

text \<open>A record whose \<open>lastLikeReset\<close> came back corrupt from storage, with its one like used.\<close>

definition bar1CorruptLike :: VenueInteraction where
  "bar1CorruptLike = bar1Yesterday \<lparr> lastLikeReset := ''not-a-date'' \<rparr>"

text \<open>The store after a first like of bar1 at 03:00, and two later attempts.\<close>

definition bar1Liked :: interactions where
  "bar1Liked = snd (likeVenue utcPlatform at_0300 ''bar1'' ''21:00'' [])"

definition bar1LikedAgain :: "(int \<times> call) list" where
  "bar1LikedAgain = [(at_0430, LikeVenue ''bar1'' ''22:00''), (at_0530, LikeVenue ''bar1'' ''22:00'')]"

text \<open>Two entities with the same number of likes, and one entity with two tied slots.\<close>

definition tiedVenues :: interactions where
  "tiedVenues = [Some (bar1Yesterday \<lparr> venueId := ''zebra'', likes := 5 \<rparr>),
                 Some (bar1Yesterday \<lparr> venueId := ''alpha'', likes := 5 \<rparr>),
                 Some (bar1Yesterday \<lparr> venueId := ''bravo'', likes := 7 \<rparr>)]"

definition tiedSlots :: interactions where
  "tiedSlots = [Some (bar1Yesterday \<lparr> arrivalTime := Some ''22:00'', count := 3 \<rparr>),
                None,
                Some (bar1Yesterday \<lparr> arrivalTime := Some ''20:00'', count := 2 \<rparr>),
                Some (bar1Yesterday \<lparr> arrivalTime := Some ''21:00'', count := 3 \<rparr>)]"

text \<open>
  The same entity with one more visit, recorded under a slot label that names a member of
  \<^verbatim>\<open>Object.prototype\<close>; and an entity whose only slot is such a label.
\<close>

definition tiedSlotsAndConstructor :: interactions where
  "tiedSlotsAndConstructor =
     tiedSlots @ [Some (bar1Yesterday \<lparr> arrivalTime := Some ''constructor'', count := 1 \<rparr>)]"

definition constructorSlot :: interactions where
  "constructorSlot = [Some (bar1Yesterday \<lparr> arrivalTime := Some ''constructor'', count := 3 \<rparr>)]"

definition protoSlot :: interactions where
  "protoSlot = [Some (bar1Yesterday \<lparr> arrivalTime := Some ''__proto__'', count := 3 \<rparr>)]"

section \<open>What the popularity queries are to compute\<close>

text \<open>
  The records \<^verbatim>\<open>getPopularArrivalTime\<close> counts for an entity: its own, with a non-empty
  arrival slot and a positive visit count. \<open>arrivalSlots\<close> are the slots they name,
  \<open>slotVisits\<close> the visits recorded under one slot, and \<open>tiedAtMaximum\<close> the slots no other
  slot has more visits than.
\<close>

definition qualifying :: "string \<Rightarrow> interactions \<Rightarrow> VenueInteraction list" where
  "qualifying v xs =
     filter (\<lambda>i. venueId i = v \<and> truthy (arrivalTime i) \<and> count i > 0) (nonNull xs)"

definition arrivalSlots :: "string \<Rightarrow> interactions \<Rightarrow> string set" where
  "arrivalSlots v xs = set (map (\<lambda>i. the (arrivalTime i)) (qualifying v xs))"

definition slotVisits :: "string \<Rightarrow> interactions \<Rightarrow> string \<Rightarrow> int" where
  "slotVisits v xs t = sum_list (map count (filter (\<lambda>i. arrivalTime i = Some t) (qualifying v xs)))"

definition tiedAtMaximum :: "string \<Rightarrow> interactions \<Rightarrow> string set" where
  "tiedAtMaximum v xs =
     {t \<in> arrivalSlots v xs. \<forall>t' \<in> arrivalSlots v xs. slotVisits v xs t' \<le> slotVisits v xs t}"

text \<open>The entries \<^verbatim>\<open>getMostPopularVenues\<close> ranks, in the order of the store.\<close>

definition rankedEntries :: "interactions \<Rightarrow> (string \<times> int) list" where
  "rankedEntries xs = map (\<lambda>i. (venueId i, likes i)) (filter (\<lambda>i. venueId i \<noteq> []) (nonNull xs))"

section \<open>Dates and the two reset windows\<close>

lemma date_lt_None [simp]: "date_lt None b = False" "date_lt a None = False"
  by (simp_all add: date_lt_def split: option.splits)

lemma date_ge_None [simp]: "date_ge None b = False" "date_ge a None = False"
  by (simp_all add: date_ge_def split: option.splits)

lemma date_lt_Some [simp]: "date_lt (Some x) (Some y) = (x < y)"
  by (simp add: date_lt_def)

lemma date_ge_Some [simp]: "date_ge (Some x) (Some y) = (y \<le> x)"
  by (simp add: date_ge_def)

lemma shouldReset_invalid: "newDate P s = None \<Longrightarrow> shouldReset P now s = False"
  by (simp add: shouldReset_def Let_def)

lemma shouldResetLikes_invalid: "newDate P s = None \<Longrightarrow> shouldResetLikes P now s = False"
  by (simp add: shouldResetLikes_def Let_def)

lemma shouldReset_empty [simp]: "shouldReset P now [] = False"
  by (simp add: shouldReset_invalid newDate_def)

lemma shouldResetLikes_empty [simp]: "shouldResetLikes P now [] = False"
  by (simp add: shouldResetLikes_invalid newDate_def)

lemma todaysLikeBoundary_eq:
  "setHours P (Some now) LIKE_RESET_HOUR LIKE_RESET_MINUTE = Some (todaysLikeBoundary P now)"
  by (simp add: setHours_def todaysLikeBoundary_def)

lemma yesterdaysLikeBoundary_eq:
  "addDays P (Some (todaysLikeBoundary P now)) (- 1) = Some (yesterdaysLikeBoundary P now)"
  by (simp add: addDays_def yesterdaysLikeBoundary_def)

lemma shouldResetLikes_valid:
  "newDate P s = Some l \<Longrightarrow>
   shouldResetLikes P now s =
     (todaysLikeBoundary P now \<le> now \<and> l < todaysLikeBoundary P now
      \<or> now < todaysLikeBoundary P now \<and> l < yesterdaysLikeBoundary P now)"
  unfolding shouldResetLikes_def todaysLikeBoundary_eq yesterdaysLikeBoundary_eq Let_def
  by auto

lemma shouldResetLikes_last:
  "newDate P s = Some l \<Longrightarrow> shouldResetLikes P now s = (l < lastLikeBoundary P now)"
  by (auto simp: shouldResetLikes_valid lastLikeBoundary_def)

text \<open>On a platform whose offset never changes the boundaries are a day apart.\<close>

lemma fixed_offset_boundaries:
  assumes "\<forall>t isUTC. localTZA P t isUTC = off"
  shows "todaysLikeBoundary P now
         = now - (now + off) mod msPerDay + LIKE_RESET_HOUR * msPerHour + LIKE_RESET_MINUTE * msPerMinute"
    and "yesterdaysLikeBoundary P now = todaysLikeBoundary P now - msPerDay"
    and "lastLikeBoundary P now \<le> now"
    and "now < lastLikeBoundary P now + msPerDay"
proof -
  show t: "todaysLikeBoundary P now
         = now - (now + off) mod msPerDay + LIKE_RESET_HOUR * msPerHour + LIKE_RESET_MINUTE * msPerMinute"
    using assms by (simp add: todaysLikeBoundary_def LocalTime_def UTC_def)
  show y: "yesterdaysLikeBoundary P now = todaysLikeBoundary P now - msPerDay"
    using assms by (simp add: yesterdaysLikeBoundary_def LocalTime_def UTC_def)
  define x where "x = (now + off) mod msPerDay"
  have m: "0 \<le> x" "x < 86400000"
    by (simp_all add: x_def msPerDay_def)
  have t': "todaysLikeBoundary P now = now - x + 17940000"
    unfolding t x_def
    by (simp add: msPerHour_def msPerMinute_def LIKE_RESET_HOUR_def LIKE_RESET_MINUTE_def)
  show "lastLikeBoundary P now \<le> now"
    using m unfolding lastLikeBoundary_def y t' by (simp add: msPerDay_def)
  show "now < lastLikeBoundary P now + msPerDay"
    using m unfolding lastLikeBoundary_def y t' by (simp add: msPerDay_def)
qed

section \<open>The reset pass\<close>

lemma resetInteraction_frame [simp]:
  "venueId (resetInteraction P now r) = venueId r"
  "likes (resetInteraction P now r) = likes r"
  "lastInteraction (resetInteraction P now r) = lastInteraction r"
  "timestamp (resetInteraction P now r) = timestamp r"
  by (simp_all add: resetInteraction_def Let_def)

lemma orZero_id [simp]: "orZero n = n"
  by (simp add: orZero_def)

lemma filterBoolean_idem [simp]: "filterBoolean (filterBoolean xs) = filterBoolean xs"
  by (simp add: filterBoolean_def)

lemma filterBoolean_map_option [simp]:
  "filterBoolean (map (map_option f) xs) = map (map_option f) (filterBoolean xs)"
  by (induction xs) (simp_all add: filterBoolean_def)

lemma findInteraction_filterBoolean [simp]:
  "findInteraction v (filterBoolean xs) = findInteraction v xs"
  by (induction v xs rule: findInteraction.induct) (simp_all add: filterBoolean_def)

lemma findInteraction_map_option:
  "(\<And>r. venueId (f r) = venueId r) \<Longrightarrow>
   findInteraction v (map (map_option f) xs) = map_option f (findInteraction v xs)"
  by (induction v xs rule: findInteraction.induct) simp_all

lemma nonNull_filterBoolean [simp]: "nonNull (filterBoolean xs) = nonNull xs"
  by (simp add: nonNull_def filterBoolean_def)

lemma nonNull_map_option [simp]: "nonNull (map (map_option f) xs) = map f (nonNull xs)"
  by (induction xs) (auto simp: nonNull_def)

text \<open>What the reset pass does, entry by entry.\<close>

lemma resetInteractionsIfNeeded_cases:
  "resetInteractionsIfNeeded P now xs = xs \<or>
   resetInteractionsIfNeeded P now xs = map (map_option (resetInteraction P now)) (filterBoolean xs)"
  by (simp add: resetInteractionsIfNeeded_def Let_def)

lemma getTotalLikes_sum: "getTotalLikes xs = sum_list (map likes (nonNull xs))"
proof -
  have "fold (\<lambda>i t. t + (case i of None \<Rightarrow> 0 | Some r \<Rightarrow> orZero (likes r))) ys a
        = a + sum_list (map likes (nonNull ys))" for ys a
    by (induction ys arbitrary: a) (auto simp: nonNull_def)
  from this[of "filterBoolean xs" 0] show ?thesis
    by (simp add: getTotalLikes_def)
qed

lemma nonNull_reset_frame:
  "map (\<lambda>r. (venueId r, likes r, lastInteraction r, timestamp r)) (nonNull (resetInteractionsIfNeeded P now xs))
   = map (\<lambda>r. (venueId r, likes r, lastInteraction r, timestamp r)) (nonNull xs)"
  using resetInteractionsIfNeeded_cases[of P now xs] by (auto simp: comp_def)

lemma findInteraction_reset:
  "findInteraction v (resetInteractionsIfNeeded P now xs) = findInteraction v xs \<or>
   findInteraction v (resetInteractionsIfNeeded P now xs)
     = map_option (resetInteraction P now) (findInteraction v xs)"
  using resetInteractionsIfNeeded_cases[of P now xs]
  by (auto simp: findInteraction_map_option)

text \<open>
  Claim C8. The reset pass never changes a record's cumulative like count or its entity
  identifier: \<^verbatim>\<open>getLikeCount\<close> of every entity and \<^verbatim>\<open>getTotalLikes\<close> are the same before
  and after it, and so are \<open>venueId\<close>, \<open>likes\<close>, \<open>lastInteraction\<close> and \<open>timestamp\<close> of
  every record, in order. Only the visit count, the arrival slot, the daily likes used,
  the like slot and the two reset timestamps are written.
\<close>

theorem reset_keeps_likes:
  "getLikeCount v (resetInteractionsIfNeeded P now xs) = getLikeCount v xs
   \<and> getTotalLikes (resetInteractionsIfNeeded P now xs) = getTotalLikes xs
   \<and> map (\<lambda>r. (venueId r, likes r, lastInteraction r, timestamp r))
        (nonNull (resetInteractionsIfNeeded P now xs))
      = map (\<lambda>r. (venueId r, likes r, lastInteraction r, timestamp r)) (nonNull xs)"
proof -
  have a: "getLikeCount v (resetInteractionsIfNeeded P now xs) = getLikeCount v xs"
    using findInteraction_reset[of v P now xs]
    by (auto simp: getLikeCount_def split: option.splits)
  have "map likes (nonNull (resetInteractionsIfNeeded P now xs)) = map likes (nonNull xs)"
    using resetInteractionsIfNeeded_cases[of P now xs] by (auto simp: comp_def)
  then have b: "getTotalLikes (resetInteractionsIfNeeded P now xs) = getTotalLikes xs"
    by (simp add: getTotalLikes_sum)
  from a b nonNull_reset_frame show ?thesis by blast
qed

lemma orString_simps [simp]: "orString [] b = b" "a \<noteq> [] \<Longrightarrow> orString a b = a"
  by (simp_all add: orString_def)

lemma newDate_nonempty: "newDate P s = Some t \<Longrightarrow> s \<noteq> []"
  by (auto simp: newDate_def)

text \<open>A second run of the pass on a record writes what the first run wrote.\<close>

lemma resetInteraction_twice:
  assumes "toISOString P now \<noteq> []"
  shows "resetInteraction P now (resetInteraction P now r) = resetInteraction P now r"
proof -
  let ?iso = "toISOString P now"
  have visits: "count (resetInteraction P now (resetInteraction P now r)) = count (resetInteraction P now r)
      \<and> lastReset (resetInteraction P now (resetInteraction P now r)) = lastReset (resetInteraction P now r)
      \<and> arrivalTime (resetInteraction P now (resetInteraction P now r))
        = arrivalTime (resetInteraction P now r)"
    by (cases "shouldReset P now (lastReset r)") (simp_all add: resetInteraction_def Let_def)
  have stamp: "orString (lastLikeReset (resetInteraction P now r)) (lastReset (resetInteraction P now r))
               = lastLikeReset (resetInteraction P now r)"
  proof (cases "lastLikeReset (resetInteraction P now r) = []")
    case False
    then show ?thesis by simp
  next
    case True
    then have "\<not> shouldResetLikes P now (orString (lastLikeReset r) (lastReset r))"
      using assms by (auto simp: resetInteraction_def Let_def split: if_splits)
    with True have "lastLikeReset r = []" "lastReset r = []"
      by (auto simp: resetInteraction_def Let_def orString_def split: if_splits)
    then show ?thesis by (simp add: resetInteraction_def Let_def)
  qed
  have likes': "lastLikeReset (resetInteraction P now (resetInteraction P now r))
        = lastLikeReset (resetInteraction P now r)
      \<and> dailyLikesUsed (resetInteraction P now (resetInteraction P now r))
        = dailyLikesUsed (resetInteraction P now r)
      \<and> likeTimeSlot (resetInteraction P now (resetInteraction P now r))
        = likeTimeSlot (resetInteraction P now r)"
  proof (cases "shouldResetLikes P now (orString (lastLikeReset r) (lastReset r))")
    case True
    then have f: "lastLikeReset (resetInteraction P now r) = ?iso"
      "dailyLikesUsed (resetInteraction P now r) = 0" "likeTimeSlot (resetInteraction P now r) = None"
      by (simp_all add: resetInteraction_def Let_def)
    show ?thesis
      unfolding resetInteraction_def [of P now "resetInteraction P now r"] Let_def stamp
      by (simp add: f)
  next
    case False
    then have f: "lastLikeReset (resetInteraction P now r) = orString (lastLikeReset r) (lastReset r)"
      by (simp add: resetInteraction_def Let_def)
    have "\<not> shouldResetLikes P now (lastLikeReset (resetInteraction P now r))"
      using False unfolding f .
    then show ?thesis
      unfolding resetInteraction_def [of P now "resetInteraction P now r"] Let_def stamp
      by simp
  qed
  have "venueId (resetInteraction P now (resetInteraction P now r)) = venueId (resetInteraction P now r)"
    "likes (resetInteraction P now (resetInteraction P now r)) = likes (resetInteraction P now r)"
    "lastInteraction (resetInteraction P now (resetInteraction P now r))
     = lastInteraction (resetInteraction P now r)"
    "timestamp (resetInteraction P now (resetInteraction P now r)) = timestamp (resetInteraction P now r)"
    "VenueInteraction.more (resetInteraction P now (resetInteraction P now r))
     = VenueInteraction.more (resetInteraction P now r)"
    by (simp_all add: resetInteraction_def Let_def)
  with visits likes' show ?thesis
    by (intro VenueInteraction.equality) simp_all
qed

text \<open>
  Claim C3. The reset pass is idempotent: run twice in succession at the same clock
  reading, it leaves the store the first run left. (The platform hypothesis says that
  the timestamp written by the pass, \<^verbatim>\<open>new Date().toISOString()\<close>, reads back as the
  time it was written at, as it does in every ECMAScript engine.)
\<close>

theorem reset_idempotent:
  assumes "newDate P (toISOString P now) = Some now"
  shows "resetInteractionsIfNeeded P now (resetInteractionsIfNeeded P now xs)
         = resetInteractionsIfNeeded P now xs"
proof -
  have ne: "toISOString P now \<noteq> []"
    using assms by (rule newDate_nonempty)
  from resetInteractionsIfNeeded_cases[of P now xs] show ?thesis
  proof
    assume "resetInteractionsIfNeeded P now xs = xs"
    then show ?thesis by simp
  next
    assume e: "resetInteractionsIfNeeded P now xs
               = map (map_option (resetInteraction P now)) (filterBoolean xs)"
    have m: "map (map_option (resetInteraction P now))
               (filterBoolean (map (map_option (resetInteraction P now)) (filterBoolean xs)))
             = map (map_option (resetInteraction P now)) (filterBoolean xs)"
      by (simp add: option.map_comp comp_def resetInteraction_twice[OF ne])
    from resetInteractionsIfNeeded_cases[of P now "map (map_option (resetInteraction P now)) (filterBoolean xs)"]
    show ?thesis
      unfolding e m by auto
  qed
qed

text \<open>
  At 05:30 on 2024-03-10 the pass resets yesterday's record (and drops the null entry);
  a second pass at 05:30 changes nothing.
\<close>

theorem reset_idempotent_witness:
  "newDate utcPlatform (toISOString utcPlatform at_0530) = Some at_0530
   \<and> resetInteractionsIfNeeded utcPlatform at_0530
         (resetInteractionsIfNeeded utcPlatform at_0530 [None, Some bar1Yesterday])
       = resetInteractionsIfNeeded utcPlatform at_0530 [None, Some bar1Yesterday]
   \<and> resetInteractionsIfNeeded utcPlatform at_0530 [None, Some bar1Yesterday]
       \<noteq> [None, Some bar1Yesterday]"
proof -
  have h: "newDate utcPlatform (toISOString utcPlatform at_0530) = Some at_0530"
    by code_simp
  have n: "resetInteractionsIfNeeded utcPlatform at_0530 [None, Some bar1Yesterday]
           \<noteq> [None, Some bar1Yesterday]"
    by code_simp
  from h n reset_idempotent [OF h, of "[None, Some bar1Yesterday]"] show ?thesis
    by simp
qed

section \<open>The like window\<close>

lemma findInteraction_mem: "findInteraction v xs = Some r \<Longrightarrow> Some r \<in> set xs"
  by (induction v xs rule: findInteraction.induct) (auto split: if_splits)

lemma findInteraction_reset_pending:
  assumes "findInteraction v xs = Some r" "shouldResetLikes P now (likeStamp r)"
  shows "findInteraction v (resetInteractionsIfNeeded P now xs) = Some (resetInteraction P now r)"
proof -
  from assms(1) have "Some r \<in> set xs" by (rule findInteraction_mem)
  with assms(2) have "list_ex (\<lambda>i. case i of None \<Rightarrow> False
      | Some r \<Rightarrow> shouldResetLikes P now (orString (lastLikeReset r) (lastReset r))) xs"
    by (force simp: list_ex_iff likeStamp_def)
  then have "resetInteractionsIfNeeded P now xs
             = map (map_option (resetInteraction P now)) (filterBoolean xs)"
    by (simp add: resetInteractionsIfNeeded_def)
  with assms(1) show ?thesis
    by (simp add: findInteraction_map_option)
qed

lemma resetInteraction_zeroes:
  "shouldResetLikes P now (likeStamp r) \<Longrightarrow>
   dailyLikesUsed (resetInteraction P now r) = 0
   \<and> likeTimeSlot (resetInteraction P now r) = None
   \<and> lastLikeReset (resetInteraction P now r) = toISOString P now"
  by (simp add: resetInteraction_def Let_def likeStamp_def)

lemma resetInteraction_keeps:
  "\<not> shouldResetLikes P now (likeStamp r) \<Longrightarrow>
   dailyLikesUsed (resetInteraction P now r) = dailyLikesUsed r
   \<and> likeTimeSlot (resetInteraction P now r) = likeTimeSlot r"
  by (simp add: resetInteraction_def Let_def likeStamp_def)

lemma fixed_offset_boundary_time:
  assumes "\<forall>t isUTC. localTZA P t isUTC = off"
  shows "(todaysLikeBoundary P now + off) mod msPerDay
         = LIKE_RESET_HOUR * msPerHour + LIKE_RESET_MINUTE * msPerMinute"
proof -
  have "todaysLikeBoundary P now + off
        = (now + off) div msPerDay * msPerDay
          + (LIKE_RESET_HOUR * msPerHour + LIKE_RESET_MINUTE * msPerMinute)"
    unfolding fixed_offset_boundaries(1)[OF assms]
    by (simp add: minus_mod_eq_div_mult [symmetric] algebra_simps)
  then show ?thesis
    by (simp add: msPerDay_def msPerHour_def msPerMinute_def LIKE_RESET_HOUR_def LIKE_RESET_MINUTE_def)
qed

text \<open>
  Claim C4, as the code has it. \<^verbatim>\<open>shouldResetLikes\<close> is true exactly when its argument is
  a valid timestamp and either \<open>now\<close> is at or after today's 04:59:00 boundary and the
  timestamp is before that boundary, or \<open>now\<close> is before today's boundary and the
  timestamp is before yesterday's: in one, when the timestamp is before the last boundary.
  So for a record whose like stamp is valid the reset pass zeroes \<open>dailyLikesUsed\<close>, clears
  the like slot and stamps the record with \<open>now\<close> when the last boundary lies after the
  stamp, and leaves the quota alone otherwise; once zeroed at \<open>now\<close>, the record is due
  again only at a clock reading whose last boundary lies after \<open>now\<close>. That is once for
  each boundary crossed, also in the early morning before today's boundary, and the
  boundaries are the instants of 04:59:00 local time, a day apart, where the offset of
  local time is fixed. A record whose like stamp is malformed is never zeroed.
\<close>

theorem like_quota_zeroed_once_per_boundary:
  assumes "findInteraction v xs = Some r"
  shows "shouldResetLikes P now s
         = (\<exists>l. newDate P s = Some l
               \<and> (todaysLikeBoundary P now \<le> now \<and> l < todaysLikeBoundary P now
                  \<or> now < todaysLikeBoundary P now \<and> l < yesterdaysLikeBoundary P now))
       \<and> shouldResetLikes P now s = (\<exists>l. newDate P s = Some l \<and> l < lastLikeBoundary P now)
       \<and> (shouldResetLikes P now (likeStamp r) \<longrightarrow>
            map_option (\<lambda>i. (dailyLikesUsed i, likeTimeSlot i, lastLikeReset i))
              (findInteraction v (resetInteractionsIfNeeded P now xs))
            = Some (0, None, toISOString P now))
       \<and> (\<not> shouldResetLikes P now (likeStamp r) \<longrightarrow>
            map_option (\<lambda>i. (dailyLikesUsed i, likeTimeSlot i))
              (findInteraction v (resetInteractionsIfNeeded P now xs))
            = Some (dailyLikesUsed r, likeTimeSlot r))
       \<and> (newDate P (toISOString P now) = Some now \<and> shouldResetLikes P now (likeStamp r) \<longrightarrow>
            map_option (\<lambda>i. shouldResetLikes P now' (likeStamp i))
              (findInteraction v (resetInteractionsIfNeeded P now xs))
            = Some (now < lastLikeBoundary P now'))
       \<and> (newDate P (likeStamp r) = None \<longrightarrow>
            map_option dailyLikesUsed (findInteraction v (resetInteractionsIfNeeded P now xs))
            = Some (dailyLikesUsed r))
       \<and> ((\<forall>t isUTC. localTZA P t isUTC = off) \<longrightarrow>
            lastLikeBoundary P now \<le> now \<and> now < lastLikeBoundary P now + msPerDay
            \<and> yesterdaysLikeBoundary P now = todaysLikeBoundary P now - msPerDay
            \<and> (todaysLikeBoundary P now + off) mod msPerDay
              = LIKE_RESET_HOUR * msPerHour + LIKE_RESET_MINUTE * msPerMinute)"
proof -
  let ?pass = "resetInteractionsIfNeeded P now xs"
  have a: "shouldResetLikes P now s
         = (\<exists>l. newDate P s = Some l
               \<and> (todaysLikeBoundary P now \<le> now \<and> l < todaysLikeBoundary P now
                  \<or> now < todaysLikeBoundary P now \<and> l < yesterdaysLikeBoundary P now))"
    by (cases "newDate P s") (simp_all add: shouldResetLikes_invalid shouldResetLikes_valid)
  have b: "shouldResetLikes P now s = (\<exists>l. newDate P s = Some l \<and> l < lastLikeBoundary P now)"
    by (cases "newDate P s") (simp_all add: shouldResetLikes_invalid shouldResetLikes_last)
  have c: "map_option (\<lambda>i. (dailyLikesUsed i, likeTimeSlot i, lastLikeReset i)) (findInteraction v ?pass)
           = Some (0, None, toISOString P now)"
    if "shouldResetLikes P now (likeStamp r)"
    using findInteraction_reset_pending[OF assms that] resetInteraction_zeroes[OF that]
    by simp
  have d: "map_option (\<lambda>i. (dailyLikesUsed i, likeTimeSlot i)) (findInteraction v ?pass)
           = Some (dailyLikesUsed r, likeTimeSlot r)"
    if "\<not> shouldResetLikes P now (likeStamp r)"
    using findInteraction_reset[of v P now xs] assms resetInteraction_keeps[OF that]
    by auto
  have e: "map_option (\<lambda>i. shouldResetLikes P now' (likeStamp i)) (findInteraction v ?pass)
           = Some (now < lastLikeBoundary P now')"
    if rt: "newDate P (toISOString P now) = Some now" and z: "shouldResetLikes P now (likeStamp r)"
  proof -
    from rt have "toISOString P now \<noteq> []" by (rule newDate_nonempty)
    with resetInteraction_zeroes[OF z]
    have "likeStamp (resetInteraction P now r) = toISOString P now"
      by (simp add: likeStamp_def)
    with findInteraction_reset_pending[OF assms z] shouldResetLikes_last[OF rt, of now']
    show ?thesis by simp
  qed
  have f: "map_option dailyLikesUsed (findInteraction v ?pass) = Some (dailyLikesUsed r)"
    if "newDate P (likeStamp r) = None"
  proof -
    from that have "\<not> shouldResetLikes P now (likeStamp r)"
      by (simp add: shouldResetLikes_invalid)
    from d[OF this] show ?thesis by auto
  qed
  have g: "lastLikeBoundary P now \<le> now \<and> now < lastLikeBoundary P now + msPerDay
            \<and> yesterdaysLikeBoundary P now = todaysLikeBoundary P now - msPerDay
            \<and> (todaysLikeBoundary P now + off) mod msPerDay
              = LIKE_RESET_HOUR * msPerHour + LIKE_RESET_MINUTE * msPerMinute"
    if "\<forall>t isUTC. localTZA P t isUTC = off"
    using fixed_offset_boundaries(2,3,4)[OF that] fixed_offset_boundary_time[OF that]
    by blast
  from a b c d e f g show ?thesis by blast
qed

text \<open>
  Yesterday evening's record at 03:00 on 2024-03-11, before that day's boundary: the
  boundary of 2024-03-10 has been crossed since the stamp, so the pass zeroes the quota
  and stamps the record; the next zeroing waits for the boundary of 04:59 (it is due at
  05:30, not at 04:30). A record with a corrupt stamp keeps its used like.
\<close>

theorem like_quota_zeroed_once_per_boundary_witness:
  "findInteraction ''bar1'' [Some bar1Yesterday] = Some bar1Yesterday
   \<and> (\<forall>t isUTC. localTZA utcPlatform t isUTC = 0)
   \<and> newDate utcPlatform (toISOString utcPlatform (at_0300 + msPerDay)) = Some (at_0300 + msPerDay)
   \<and> at_0300 + msPerDay < todaysLikeBoundary utcPlatform (at_0300 + msPerDay)
   \<and> shouldResetLikes utcPlatform (at_0300 + msPerDay) (likeStamp bar1Yesterday)
   \<and> map_option (\<lambda>i. (dailyLikesUsed i, likeTimeSlot i, lastLikeReset i))
        (findInteraction ''bar1''
           (resetInteractionsIfNeeded utcPlatform (at_0300 + msPerDay) [Some bar1Yesterday]))
     = Some (0, None, ''2024-03-11T03:00:00.000Z'')
   \<and> map_option (\<lambda>i. shouldResetLikes utcPlatform (at_0430 + msPerDay) (likeStamp i))
        (findInteraction ''bar1''
           (resetInteractionsIfNeeded utcPlatform (at_0300 + msPerDay) [Some bar1Yesterday]))
     = Some False
   \<and> map_option (\<lambda>i. shouldResetLikes utcPlatform (at_0530 + msPerDay) (likeStamp i))
        (findInteraction ''bar1''
           (resetInteractionsIfNeeded utcPlatform (at_0300 + msPerDay) [Some bar1Yesterday]))
     = Some True
   \<and> \<not> shouldResetLikes utcPlatform at_0300 (likeStamp bar1Yesterday)
   \<and> map_option (\<lambda>i. (dailyLikesUsed i, likeTimeSlot i))
        (findInteraction ''bar1'' (resetInteractionsIfNeeded utcPlatform at_0300 [Some bar1Yesterday]))
     = Some (1, Some ''21:00'')
   \<and> newDate utcPlatform (likeStamp bar1CorruptLike) = None
   \<and> map_option dailyLikesUsed
        (findInteraction ''bar1'' (resetInteractionsIfNeeded utcPlatform at_0530 [Some bar1CorruptLike]))
     = Some 1"
proof -
  have h1: "findInteraction ''bar1'' [Some bar1Yesterday] = Some bar1Yesterday"
    by (simp add: bar1Yesterday_def)
  have h2: "findInteraction ''bar1'' [Some bar1CorruptLike] = Some bar1CorruptLike"
    by (simp add: bar1CorruptLike_def bar1Yesterday_def)
  have o: "\<forall>t isUTC. localTZA utcPlatform t isUTC = 0"
    by (simp add: utcPlatform_def)
  have rt: "newDate utcPlatform (toISOString utcPlatform (at_0300 + msPerDay)) = Some (at_0300 + msPerDay)"
    by code_simp
  have iso: "toISOString utcPlatform (at_0300 + msPerDay) = ''2024-03-11T03:00:00.000Z''"
    by code_simp
  have early: "at_0300 + msPerDay < todaysLikeBoundary utcPlatform (at_0300 + msPerDay)"
    by code_simp
  have z: "shouldResetLikes utcPlatform (at_0300 + msPerDay) (likeStamp bar1Yesterday)"
    by code_simp
  have nz: "\<not> shouldResetLikes utcPlatform at_0300 (likeStamp bar1Yesterday)"
    by code_simp
  have bad: "newDate utcPlatform (likeStamp bar1CorruptLike) = None"
    by code_simp
  have b1: "(at_0300 + msPerDay < lastLikeBoundary utcPlatform (at_0430 + msPerDay)) = False"
    by code_simp
  have b2: "(at_0300 + msPerDay < lastLikeBoundary utcPlatform (at_0530 + msPerDay)) = True"
    by code_simp
  have v: "dailyLikesUsed bar1Yesterday = 1" "likeTimeSlot bar1Yesterday = Some ''21:00''"
    "dailyLikesUsed bar1CorruptLike = 1"
    by (simp_all add: bar1Yesterday_def bar1CorruptLike_def)
  note w1 = like_quota_zeroed_once_per_boundary
    [OF h1, of utcPlatform "at_0300 + msPerDay" "[]" "at_0430 + msPerDay" 0]
  note w2 = like_quota_zeroed_once_per_boundary
    [OF h1, of utcPlatform "at_0300 + msPerDay" "[]" "at_0530 + msPerDay" 0]
  note w3 = like_quota_zeroed_once_per_boundary [OF h1, of utcPlatform at_0300 "[]" at_0300 0]
  note w4 = like_quota_zeroed_once_per_boundary [OF h2, of utcPlatform at_0530 "[]" at_0530 0]
  from w1 z rt have c1: "map_option (\<lambda>i. (dailyLikesUsed i, likeTimeSlot i, lastLikeReset i))
        (findInteraction ''bar1''
           (resetInteractionsIfNeeded utcPlatform (at_0300 + msPerDay) [Some bar1Yesterday]))
     = Some (0, None, ''2024-03-11T03:00:00.000Z'')"
    and c2: "map_option (\<lambda>i. shouldResetLikes utcPlatform (at_0430 + msPerDay) (likeStamp i))
        (findInteraction ''bar1''
           (resetInteractionsIfNeeded utcPlatform (at_0300 + msPerDay) [Some bar1Yesterday]))
     = Some False"
    unfolding iso b1 by blast+
  from w2 z rt have c3: "map_option (\<lambda>i. shouldResetLikes utcPlatform (at_0530 + msPerDay) (likeStamp i))
        (findInteraction ''bar1''
           (resetInteractionsIfNeeded utcPlatform (at_0300 + msPerDay) [Some bar1Yesterday]))
     = Some True"
    unfolding b2 by blast
  from w3 nz have c4: "map_option (\<lambda>i. (dailyLikesUsed i, likeTimeSlot i))
        (findInteraction ''bar1'' (resetInteractionsIfNeeded utcPlatform at_0300 [Some bar1Yesterday]))
     = Some (1, Some ''21:00'')"
    unfolding v by blast
  from w4 bad have c5: "map_option dailyLikesUsed
        (findInteraction ''bar1'' (resetInteractionsIfNeeded utcPlatform at_0530 [Some bar1CorruptLike]))
     = Some 1"
    unfolding v by blast
  from h1 o rt early z nz bad c1 c2 c3 c4 c5 show ?thesis by blast
qed

text \<open>
  A record whose like stamp is corrupt is not zeroed once per day: with its one like
  used, it keeps it across the boundaries of 2024-03-10 and 2024-03-11, and the entity
  still cannot be liked a week later.
\<close>

theorem like_quota_zeroed_counterexample:
  "dailyLikesUsed bar1CorruptLike = 1
   \<and> \<not> shouldResetLikes utcPlatform (at_0530 + msPerDay) (likeStamp bar1CorruptLike)
   \<and> map_option dailyLikesUsed
        (findInteraction ''bar1''
           (resetInteractionsIfNeeded utcPlatform (at_0530 + msPerDay)
              (resetInteractionsIfNeeded utcPlatform at_0530 [Some bar1CorruptLike])))
     = Some 1
   \<and> \<not> fst (canLikeVenue utcPlatform (at_0530 + 7 * msPerDay) ''bar1'' [Some bar1CorruptLike])"
  by code_simp

section \<open>Visits and the cooldown\<close>

lemma findInteraction_reset_lastInteraction:
  "map_option lastInteraction (findInteraction v (resetInteractionsIfNeeded P now xs))
   = map_option lastInteraction (findInteraction v xs)"
  using findInteraction_reset[of v P now xs]
  by (auto simp: option.map_comp comp_def)

lemma canInteract_fst:
  "v \<noteq> [] \<Longrightarrow>
   fst (canInteract P now v xs)
   = canInteractWithVenue P now (map_option lastInteraction (findInteraction v xs))"
  by (simp add: canInteract_def Let_def findInteraction_reset_lastInteraction)

lemma canInteract_snd:
  "v \<noteq> [] \<Longrightarrow> snd (canInteract P now v xs) = resetInteractionsIfNeeded P now xs"
  by (simp add: canInteract_def Let_def)

lemma canInteractWithVenue_absent [simp]:
  "canInteractWithVenue P now None" "canInteractWithVenue P now (Some [])"
  by (simp_all add: canInteractWithVenue_def truthy_def)

text \<open>The instant the cooldown of a visit at \<open>t\<close> ends: two hours later on the local clock.\<close>

lemma canInteractWithVenue_valid:
  "newDate P s = Some t \<Longrightarrow>
   canInteractWithVenue P now (Some s)
   = (UTC P (LocalTime P t + INTERACTION_COOLDOWN_HOURS * msPerHour) \<le> now)"
  by (auto simp: canInteractWithVenue_def truthy_def addHours_def Let_def newDate_def)

lemma canInteractWithVenue_fixed_offset:
  "newDate P s = Some t \<Longrightarrow> \<forall>t isUTC. localTZA P t isUTC = off \<Longrightarrow>
   canInteractWithVenue P now (Some s) = (t + INTERACTION_COOLDOWN_HOURS * msPerHour \<le> now)"
  by (simp add: canInteractWithVenue_valid UTC_def LocalTime_def)

lemma canInteractWithVenue_invalid:
  "newDate P s = None \<Longrightarrow> s \<noteq> [] \<Longrightarrow> canInteractWithVenue P now (Some s) = False"
  by (simp add: canInteractWithVenue_def truthy_def addHours_def Let_def)

text \<open>The store an \<^verbatim>\<open>incrementInteraction\<close> call works on once its two passes have run.\<close>

lemma incrementInteraction_rejected:
  "v \<noteq> [] \<Longrightarrow> \<not> fst (canInteract P now v (resetInteractionsIfNeeded P now xs)) \<Longrightarrow>
   incrementInteraction P now v a xs
   = (Undefined, resetInteractionsIfNeeded P now (resetInteractionsIfNeeded P now xs))"
  by (simp add: incrementInteraction_def Let_def canInteract_def split: prod.splits)

lemma findInteraction_append:
  "findInteraction v (xs @ ys)
   = (case findInteraction v xs of None \<Rightarrow> findInteraction v ys | Some r \<Rightarrow> Some r)"
  by (induction v xs rule: findInteraction.induct) simp_all

lemma findInteraction_venueId: "findInteraction v xs = Some r \<Longrightarrow> venueId r = v"
  by (induction v xs rule: findInteraction.induct) (auto split: if_splits)

lemma findInteraction_update:
  "(\<And>r. venueId (f r) = venueId r) \<Longrightarrow>
   findInteraction v (map (\<lambda>i. case i of None \<Rightarrow> None
                               | Some r \<Rightarrow> if venueId r = v then Some (f r) else Some r) xs)
   = map_option f (findInteraction v xs)"
  by (induction v xs rule: findInteraction.induct) simp_all

lemma incrementInteraction_accepted:
  assumes "v \<noteq> []" "fst (canInteract P now v (resetInteractionsIfNeeded P now xs))"
  shows "findInteraction v (snd (incrementInteraction P now v a xs))
         = (case findInteraction v (resetInteractionsIfNeeded P now (resetInteractionsIfNeeded P now xs)) of
              None \<Rightarrow> Some \<lparr> venueId = v, count = 1, lastReset = toISOString P now,
                              lastInteraction = toISOString P now, arrivalTime = a, likes = 0,
                              timestamp = toISOString P now, lastLikeReset = toISOString P now,
                              dailyLikesUsed = 0, likeTimeSlot = None \<rparr>
            | Some r \<Rightarrow> Some (r\<lparr> count := count r + 1, lastInteraction := toISOString P now,
                                  arrivalTime := orOption a (arrivalTime r),
                                  timestamp := toISOString P now \<rparr>))"
  using assms
  by (simp add: incrementInteraction_def Let_def canInteract_def findInteraction_append
        findInteraction_update split: prod.splits option.splits)

lemma incrementInteraction_lastInteraction:
  assumes "v \<noteq> []" "fst (canInteract P now v xs)"
  shows "map_option lastInteraction (findInteraction v (snd (incrementInteraction P now v a xs)))
         = Some (toISOString P now)"
proof -
  from assms have "fst (canInteract P now v (resetInteractionsIfNeeded P now xs))"
    by (simp add: canInteract_fst findInteraction_reset_lastInteraction)
  from incrementInteraction_accepted[OF assms(1) this, of a] show ?thesis
    by (simp split: option.splits)
qed

text \<open>
  Where the offset of local time never changes, the cooldown is two hours of elapsed
  time: after a visit accepted at \<open>T\<close>, \<^verbatim>\<open>canInteract\<close> is false before \<open>T + 2h\<close> and true
  from \<open>T + 2h\<close> on, whatever reset passes have run in between.
\<close>

lemma cooldown_fixed_offset:
  assumes "v \<noteq> []" "newDate P (toISOString P T) = Some T"
    and "\<forall>t isUTC. localTZA P t isUTC = off"
    and "fst (canInteract P T v xs)"
  shows "fst (canInteract P now v (snd (incrementInteraction P T v a xs)))
         = (T + 2 * msPerHour \<le> now)"
    and "fst (canInteract P now v
                (resetInteractionsIfNeeded P now' (snd (incrementInteraction P T v a xs))))
         = (T + 2 * msPerHour \<le> now)"
proof -
  have l: "map_option lastInteraction (findInteraction v (snd (incrementInteraction P T v a xs)))
           = Some (toISOString P T)"
    using assms(1,4) by (rule incrementInteraction_lastInteraction)
  from l canInteractWithVenue_fixed_offset[OF assms(2,3), of now]
  show "fst (canInteract P now v (snd (incrementInteraction P T v a xs)))
        = (T + 2 * msPerHour \<le> now)"
    using assms(1) by (simp add: canInteract_fst INTERACTION_COOLDOWN_HOURS_def del: map_option_eq_Some)
  from l canInteractWithVenue_fixed_offset[OF assms(2,3), of now]
  show "fst (canInteract P now v
               (resetInteractionsIfNeeded P now' (snd (incrementInteraction P T v a xs))))
        = (T + 2 * msPerHour \<le> now)"
    using assms(1)
    by (simp add: canInteract_fst findInteraction_reset_lastInteraction INTERACTION_COOLDOWN_HOURS_def
          del: map_option_eq_Some)
qed

text \<open>
  Claim C2 where the clocks change. \<^verbatim>\<open>canInteractWithVenue\<close> adds the two cooldown hours
  to the hour field of the local time (\<^verbatim>\<open>setHours(getHours() + 2)\<close>), so the cooldown is
  two hours on the local clock, not two hours of elapsed time. In New York, after a first
  check-in at 01:30 EST on 2024-03-10 the cooldown ends at 03:30 EDT, one hour later: the
  call at \<open>T + 1h\<close> is accepted and the visit count becomes 2. After a first check-in at
  00:30 EDT on 2024-11-03 the cooldown ends at 02:30 EST, three hours later: the call at
  \<open>T + 2h\<close> is rejected and the visit count stays 1.
\<close>

theorem cooldown_across_clock_change:
  "fst (canInteract newYork2024 newYork_0130_EST ''bar1'' [])
   \<and> fst (getInteractionCount newYork2024 newYork_0130_EST ''bar1''
            (bar1VisitedInNewYork newYork_0130_EST)) = 1
   \<and> fst (canInteract newYork2024 (newYork_0130_EST + msPerHour) ''bar1''
            (bar1VisitedInNewYork newYork_0130_EST))
   \<and> fst (getInteractionCount newYork2024 (newYork_0130_EST + msPerHour) ''bar1''
            (snd (incrementInteraction newYork2024 (newYork_0130_EST + msPerHour) ''bar1'' None
                    (bar1VisitedInNewYork newYork_0130_EST)))) = 2
   \<and> fst (canInteract newYork2024 newYork_0030_EDT ''bar1'' [])
   \<and> fst (getInteractionCount newYork2024 newYork_0030_EDT ''bar1''
            (bar1VisitedInNewYork newYork_0030_EDT)) = 1
   \<and> \<not> fst (canInteract newYork2024 (newYork_0030_EDT + 2 * msPerHour) ''bar1''
              (bar1VisitedInNewYork newYork_0030_EDT))
   \<and> fst (getInteractionCount newYork2024 (newYork_0030_EDT + 2 * msPerHour) ''bar1''
            (snd (incrementInteraction newYork2024 (newYork_0030_EDT + 2 * msPerHour) ''bar1'' None
                    (bar1VisitedInNewYork newYork_0030_EDT)))) = 1"
  by code_simp

section \<open>Likes, validation and corrupt timestamps\<close>

lemma findInteraction_reset_None:
  "findInteraction v xs = None \<Longrightarrow> findInteraction v (resetInteractionsIfNeeded P now xs) = None"
  using findInteraction_reset[of v P now xs] by auto

lemma likeVenue_new:
  assumes "v \<noteq> []" "timeSlot \<noteq> []" "findInteraction v xs = None"
  shows "snd (likeVenue P now v timeSlot xs)
         = filterBoolean (resetInteractionsIfNeeded P now xs) @
           [Some \<lparr> venueId = v, count = 0, lastReset = toISOString P now, lastInteraction = [],
                   arrivalTime = None, likes = 1, timestamp = toISOString P now,
                   lastLikeReset = toISOString P now, dailyLikesUsed = 1,
                   likeTimeSlot = Some timeSlot \<rparr>]"
  using assms findInteraction_reset_None[OF assms(3), of P now]
  by (simp add: likeVenue_def canLikeVenue_def Let_def)

text \<open>
  Claim C10. Liking never starts the visit cooldown: for an entity with no record,
  \<^verbatim>\<open>likeVenue\<close> (given an entity identifier and a time slot) appends a record with visit
  count 0 and the empty string as \<open>lastInteraction\<close>, and \<^verbatim>\<open>canInteract\<close> for that entity
  is true on the resulting store, whatever the clock reads.
\<close>

theorem like_does_not_start_cooldown:
  assumes "v \<noteq> []" "timeSlot \<noteq> []" "findInteraction v xs = None"
  shows "findInteraction v (snd (likeVenue P now v timeSlot xs))
         = Some \<lparr> venueId = v, count = 0, lastReset = toISOString P now, lastInteraction = [],
                  arrivalTime = None, likes = 1, timestamp = toISOString P now,
                  lastLikeReset = toISOString P now, dailyLikesUsed = 1,
                  likeTimeSlot = Some timeSlot \<rparr>
       \<and> fst (canInteract P now' v (snd (likeVenue P now v timeSlot xs)))"
proof -
  have f: "findInteraction v (snd (likeVenue P now v timeSlot xs))
         = Some \<lparr> venueId = v, count = 0, lastReset = toISOString P now, lastInteraction = [],
                  arrivalTime = None, likes = 1, timestamp = toISOString P now,
                  lastLikeReset = toISOString P now, dailyLikesUsed = 1,
                  likeTimeSlot = Some timeSlot \<rparr>"
    using findInteraction_reset_None[OF assms(3), of P now]
    by (simp add: likeVenue_new[OF assms] findInteraction_append)
  then have "fst (canInteract P now' v (snd (likeVenue P now v timeSlot xs)))"
    using assms(1) by (simp add: canInteract_fst)
  with f show ?thesis by blast
qed

text \<open>A first like of bar2 at 05:30, in a store that holds bar1 only.\<close>

theorem like_does_not_start_cooldown_witness:
  "findInteraction ''bar2'' [Some bar1Yesterday] = None
   \<and> visitCount ''bar2'' (snd (likeVenue utcPlatform at_0530 ''bar2'' ''22:00'' [Some bar1Yesterday]))
     = Some 0
   \<and> map_option lastInteraction
        (findInteraction ''bar2''
           (snd (likeVenue utcPlatform at_0530 ''bar2'' ''22:00'' [Some bar1Yesterday])))
     = Some []
   \<and> fst (canInteract utcPlatform at_0530 ''bar2''
            (snd (likeVenue utcPlatform at_0530 ''bar2'' ''22:00'' [Some bar1Yesterday])))"
proof -
  have h1: "''bar2'' \<noteq> []" and h2: "''22:00'' \<noteq> []" by simp_all
  have h3: "findInteraction ''bar2'' [Some bar1Yesterday] = None"
    by (simp add: bar1Yesterday_def)
  from h3 like_does_not_start_cooldown [OF h1 h2 h3, of utcPlatform at_0530 at_0530]
  show ?thesis by (simp add: visitCount_def)
qed

text \<open>
  Claim C9, as the code has it. \<^verbatim>\<open>incrementInteraction\<close> with an empty entity identifier,
  and \<^verbatim>\<open>likeVenue\<close> with an empty entity identifier or an empty time slot, leave the
  store unchanged and return \<^verbatim>\<open>undefined\<close>: both actions are declared \<^verbatim>\<open>void\<close> and
  return \<^verbatim>\<open>undefined\<close> on every path, accepted or not. The model's functions are total,
  as the \<^verbatim>\<open>try\<close>/\<^verbatim>\<open>catch\<close> around each body makes the actions.
\<close>

theorem validation_rejection:
  "incrementInteraction P now [] a xs = (Undefined, xs)
   \<and> likeVenue P now [] timeSlot xs = (Undefined, xs)
   \<and> likeVenue P now v [] xs = (Undefined, xs)
   \<and> fst (incrementInteraction P now v a xs) = Undefined
   \<and> fst (likeVenue P now v timeSlot xs) = Undefined"
  by (simp add: incrementInteraction_def likeVenue_def Let_def split: prod.splits option.splits)

text \<open>The caller does not get the boolean \<^verbatim>\<open>false\<close>.\<close>

theorem validation_rejection_counterexample:
  "fst (incrementInteraction utcPlatform at_0530 [] (Some ''21:00'') [Some bar1Yesterday]) \<noteq> Boolean False
   \<and> fst (likeVenue utcPlatform at_0530 [] ''21:00'' [Some bar1Yesterday]) \<noteq> Boolean False
   \<and> fst (likeVenue utcPlatform at_0530 ''bar1'' [] [Some bar1Yesterday]) \<noteq> Boolean False"
  by (simp add: incrementInteraction_def likeVenue_def)

text \<open>
  Claim C5 at a corrupt \<open>lastInteraction\<close>. \<^verbatim>\<open>new Date("not-a-date")\<close> does not throw, so
  the \<^verbatim>\<open>catch { return true; }\<close> of \<^verbatim>\<open>canInteractWithVenue\<close> is never reached: the Invalid
  Date makes \<^verbatim>\<open>now >= cooldownTime\<close> false at every clock reading. The entity is not
  eligible, every check-in is rejected, and nothing rewrites the corrupt field.
  (\<open>shouldReset_invalid\<close>, \<open>shouldResetLikes_invalid\<close> and \<open>canInteractWithVenue_absent\<close>
  are the parts of the claim that hold.)
\<close>

theorem corrupt_lastInteraction_blocks:
  "newDate utcPlatform ''not-a-date'' = None
   \<and> canInteractWithVenue utcPlatform now (Some ''not-a-date'') = False
   \<and> fst (canInteract utcPlatform now ''bar1'' [Some bar1Corrupt]) = False
   \<and> map_option lastInteraction
        (findInteraction ''bar1''
           (snd (incrementInteraction utcPlatform now ''bar1'' a [Some bar1Corrupt])))
     = Some ''not-a-date''"
proof -
  have n: "newDate utcPlatform ''not-a-date'' = None"
    by code_simp
  then have c: "canInteractWithVenue utcPlatform now (Some ''not-a-date'') = False" for now
    by (simp add: canInteractWithVenue_invalid)
  have l: "map_option lastInteraction (findInteraction ''bar1'' [Some bar1Corrupt]) = Some ''not-a-date''"
    by (simp add: bar1Corrupt_def bar1Yesterday_def)
  have b: "fst (canInteract utcPlatform now ''bar1'' ys) = False"
    if "map_option lastInteraction (findInteraction ''bar1'' ys) = Some ''not-a-date''" for ys
    using that c by (simp add: canInteract_fst del: map_option_eq_Some)
  have "incrementInteraction utcPlatform now ''bar1'' a [Some bar1Corrupt]
        = (Undefined, resetInteractionsIfNeeded utcPlatform now
                        (resetInteractionsIfNeeded utcPlatform now [Some bar1Corrupt]))"
    using b[of "resetInteractionsIfNeeded utcPlatform now [Some bar1Corrupt]"] l
    by (intro incrementInteraction_rejected) (simp_all add: findInteraction_reset_lastInteraction)
  then have "map_option lastInteraction
        (findInteraction ''bar1''
           (snd (incrementInteraction utcPlatform now ''bar1'' a [Some bar1Corrupt])))
     = Some ''not-a-date''"
    using l by (simp add: findInteraction_reset_lastInteraction)
  with n c b[OF l] show ?thesis by blast
qed

section \<open>The daily like limit\<close>

lemma withinLikeLimit_reset:
  "withinLikeLimit (Some r) \<Longrightarrow> withinLikeLimit (Some (resetInteraction P now r))"
  by (simp add: withinLikeLimit_def resetInteraction_def Let_def DAILY_LIKE_LIMIT_def)

lemma list_all_filterBoolean: "list_all Q xs \<Longrightarrow> list_all Q (filterBoolean xs)"
  by (simp add: filterBoolean_def list_all_iff)

lemma reset_keeps_limit:
  assumes "list_all withinLikeLimit xs"
  shows "list_all withinLikeLimit (resetInteractionsIfNeeded P now xs)"
proof -
  have "list_all withinLikeLimit (map (map_option (resetInteraction P now)) (filterBoolean xs))"
    using assms
    by (induction xs) (auto simp: filterBoolean_def withinLikeLimit_reset)
  with assms resetInteractionsIfNeeded_cases[of P now xs] show ?thesis by auto
qed

text \<open>After the pass a record either has no like used or has no like reset pending.\<close>

lemma resetInteraction_likes_settled:
  "dailyLikesUsed (resetInteraction P now r) = 0
   \<or> \<not> shouldResetLikes P now
         (orString (lastLikeReset (resetInteraction P now r)) (lastReset (resetInteraction P now r)))"
proof (cases "shouldResetLikes P now (orString (lastLikeReset r) (lastReset r))")
  case True
  then show ?thesis by (simp add: resetInteraction_def Let_def)
next
  case False
  show ?thesis
  proof (cases "orString (lastLikeReset r) (lastReset r) = []")
    case True
    then have "lastLikeReset r = []" "lastReset r = []"
      by (auto simp: orString_def split: if_splits)
    then show ?thesis by (simp add: resetInteraction_def Let_def)
  next
    case ne: False
    with False show ?thesis by (simp add: resetInteraction_def Let_def)
  qed
qed

lemma reset_likes_settled:
  assumes "Some r \<in> set (resetInteractionsIfNeeded P now xs)"
  shows "dailyLikesUsed r = 0
         \<or> \<not> shouldResetLikes P now (orString (lastLikeReset r) (lastReset r))"
proof (cases "list_ex (\<lambda>i. case i of None \<Rightarrow> False | Some r \<Rightarrow> shouldReset P now (lastReset r)) xs
              \<or> list_ex (\<lambda>i. case i of None \<Rightarrow> False
                   | Some r \<Rightarrow> shouldResetLikes P now (orString (lastLikeReset r) (lastReset r))) xs")
  case True
  then have "resetInteractionsIfNeeded P now xs
             = map (map_option (resetInteraction P now)) (filterBoolean xs)"
    by (simp add: resetInteractionsIfNeeded_def)
  with assms obtain r0 where "r = resetInteraction P now r0"
    by (auto simp: map_option_case split: option.splits)
  with resetInteraction_likes_settled[of P now r0] show ?thesis by simp
next
  case False
  then have e: "resetInteractionsIfNeeded P now xs = xs"
    by (simp add: resetInteractionsIfNeeded_def)
  from False have "\<not> shouldResetLikes P now (orString (lastLikeReset r) (lastReset r))"
    if "Some r \<in> set xs" for r
    using that by (auto simp: list_ex_iff split: option.splits)
  with assms e show ?thesis by simp
qed

lemma canLikeVenue_snd:
  "v \<noteq> [] \<Longrightarrow> snd (canLikeVenue P now v xs) = resetInteractionsIfNeeded P now xs"
  by (simp add: canLikeVenue_def Let_def split: option.splits)

lemma likeVenue_rejected:
  "v \<noteq> [] \<Longrightarrow> \<not> fst (canLikeVenue P now v xs) \<Longrightarrow>
   snd (likeVenue P now v timeSlot xs) = xs
   \<or> snd (likeVenue P now v timeSlot xs) = resetInteractionsIfNeeded P now xs"
  by (simp add: likeVenue_def Let_def case_prod_beta canLikeVenue_snd)

lemma likeVenue_existing:
  assumes "v \<noteq> []" "timeSlot \<noteq> []" "fst (canLikeVenue P now v xs)"
    and "findInteraction v (resetInteractionsIfNeeded P now xs) = Some e"
  shows "snd (likeVenue P now v timeSlot xs)
         = filterBoolean
             (map (\<lambda>i. case i of None \<Rightarrow> None
                        | Some r \<Rightarrow>
                            if venueId r = v
                            then Some (r\<lparr> likes := likes r + 1,
                                          timestamp := toISOString P now,
                                          lastLikeReset :=
                                            (if shouldResetLikes P now (lastLikeReset e)
                                             then toISOString P now else lastLikeReset r),
                                          dailyLikesUsed :=
                                            (if shouldResetLikes P now (lastLikeReset e) then 0
                                             else dailyLikesUsed e) + 1,
                                          likeTimeSlot := Some timeSlot \<rparr>)
                            else Some r)
                (resetInteractionsIfNeeded P now xs))"
  using assms by (simp add: likeVenue_def Let_def case_prod_beta canLikeVenue_snd)

lemma update_keeps_limit:
  assumes "list_all withinLikeLimit ys" "\<And>r. withinLikeLimit (Some r) \<Longrightarrow> withinLikeLimit (Some (f r))"
  shows "list_all withinLikeLimit
           (map (\<lambda>i. case i of None \<Rightarrow> None
                      | Some r \<Rightarrow> if venueId r = v then Some (f r) else Some r) ys)"
  using assms by (induction ys) (auto split: option.splits)

lemma likeVenue_keeps_limit:
  assumes "list_all withinLikeLimit xs"
  shows "list_all withinLikeLimit (snd (likeVenue P now v timeSlot xs))"
proof (cases "v = [] \<or> timeSlot = []")
  case True
  with assms show ?thesis by (auto simp: likeVenue_def)
next
  case False
  let ?xs1 = "resetInteractionsIfNeeded P now xs"
  have inv1: "list_all withinLikeLimit ?xs1" using assms by (rule reset_keeps_limit)
  show ?thesis
  proof (cases "fst (canLikeVenue P now v xs)")
    case no: False
    with False likeVenue_rejected[of v P now xs timeSlot] assms inv1 show ?thesis by auto
  next
    case ok: True
    show ?thesis
    proof (cases "findInteraction v ?xs1")
      case None
      with False ok inv1 show ?thesis
        by (simp add: likeVenue_def Let_def case_prod_beta canLikeVenue_snd list_all_filterBoolean
              withinLikeLimit_def DAILY_LIKE_LIMIT_def)
    next
      case (Some e)
      from Some have mem: "Some e \<in> set ?xs1" by (rule findInteraction_mem)
      with inv1 have range: "0 \<le> dailyLikesUsed e" "dailyLikesUsed e \<le> DAILY_LIKE_LIMIT"
        by (auto simp: list_all_iff withinLikeLimit_def)
      from ok False Some
      have lim: "(if shouldResetLikes P now (orString (lastLikeReset e) (lastReset e)) then 0
                  else dailyLikesUsed e) < DAILY_LIKE_LIMIT"
        by (auto simp: canLikeVenue_def Let_def split: if_splits)
      from reset_likes_settled[OF mem] lim range have zero: "dailyLikesUsed e = 0"
        by (auto simp: DAILY_LIKE_LIMIT_def split: if_splits)
      from False ok Some have e: "snd (likeVenue P now v timeSlot xs) = filterBoolean
             (map (\<lambda>i. case i of None \<Rightarrow> None
                        | Some r \<Rightarrow>
                            if venueId r = v
                            then Some (r\<lparr> likes := likes r + 1,
                                          timestamp := toISOString P now,
                                          lastLikeReset :=
                                            (if shouldResetLikes P now (lastLikeReset e)
                                             then toISOString P now else lastLikeReset r),
                                          dailyLikesUsed :=
                                            (if shouldResetLikes P now (lastLikeReset e) then 0
                                             else dailyLikesUsed e) + 1,
                                          likeTimeSlot := Some timeSlot \<rparr>)
                            else Some r)
                (resetInteractionsIfNeeded P now xs))"
        by (intro likeVenue_existing) simp_all
      show ?thesis
        unfolding e
        by (intro list_all_filterBoolean update_keeps_limit inv1)
           (simp add: withinLikeLimit_def zero DAILY_LIKE_LIMIT_def)
    qed
  qed
qed

lemma incrementInteraction_keeps_limit:
  assumes "list_all withinLikeLimit xs"
  shows "list_all withinLikeLimit (snd (incrementInteraction P now v a xs))"
proof -
  let ?xs2 = "resetInteractionsIfNeeded P now (resetInteractionsIfNeeded P now xs)"
  have inv2: "list_all withinLikeLimit ?xs2"
    using assms by (intro reset_keeps_limit)
  have upd: "list_all withinLikeLimit
          (map (\<lambda>i. case i of None \<Rightarrow> None
                     | Some r \<Rightarrow> if venueId r = v
                         then Some (r\<lparr> count := count r + 1, lastInteraction := s,
                                       arrivalTime := orOption a (arrivalTime r), timestamp := s \<rparr>)
                         else Some r) ?xs2)" for s
    by (intro update_keeps_limit inv2) (simp add: withinLikeLimit_def)
  from assms inv2 upd show ?thesis
    by (simp add: incrementInteraction_def canInteract_def Let_def list_all_filterBoolean
          withinLikeLimit_def DAILY_LIKE_LIMIT_def split: prod.splits option.splits)
qed

lemma perform_keeps_limit:
  "list_all withinLikeLimit xs \<Longrightarrow> list_all withinLikeLimit (perform P c xs)"
proof (cases c)
  case (Pair now k)
  assume inv: "list_all withinLikeLimit xs"
  show ?thesis
  proof (cases k)
    case (LikeVenue v t)
    with Pair inv show ?thesis by (simp add: likeVenue_keeps_limit)
  next
    case (IncrementInteraction v a)
    with Pair inv show ?thesis by (simp add: incrementInteraction_keeps_limit)
  next
    case ResetInteractionsIfNeeded
    with Pair inv show ?thesis by (simp add: reset_keeps_limit)
  next
    case (CanLikeVenue v)
    with Pair inv show ?thesis
      by (auto simp: canLikeVenue_def Let_def reset_keeps_limit split: option.splits)
  next
    case (CanInteract v)
    with Pair inv show ?thesis
      by (auto simp: canInteract_def Let_def reset_keeps_limit)
  next
    case (GetInteractionCount v)
    with Pair inv show ?thesis
      by (auto simp: getInteractionCount_def Let_def reset_keeps_limit)
  qed
qed

lemma performAll_keeps_limit:
  "list_all withinLikeLimit xs \<Longrightarrow> list_all withinLikeLimit (performAll P calls xs)"
  unfolding performAll_def
  by (induction calls arbitrary: xs) (simp_all add: perform_keeps_limit)

text \<open>
  Claim C1. \<open>0 \<le> dailyLikesUsed \<le> DAILY_LIKE_LIMIT\<close> on every record is an invariant of the
  store: it holds after any sequence of calls (\<^verbatim>\<open>likeVenue\<close>, and every other action that
  writes the store) at any clock readings, from any store it holds on, the empty initial
  store among them. \<^verbatim>\<open>likeVenue\<close> adds to \<open>dailyLikesUsed\<close> only when \<^verbatim>\<open>canLikeVenue\<close>
  holds: otherwise the store is left as it was, or as the pending-reset pass leaves it.
\<close>

theorem dailyLikesUsed_within_limit:
  assumes "list_all withinLikeLimit xs"
  shows "list_all withinLikeLimit (performAll P calls xs)
       \<and> list_all withinLikeLimit (snd (likeVenue P now v timeSlot xs))
       \<and> (\<not> fst (canLikeVenue P now v xs) \<longrightarrow>
            snd (likeVenue P now v timeSlot xs) = xs
            \<or> snd (likeVenue P now v timeSlot xs) = resetInteractionsIfNeeded P now xs)"
proof -
  have "snd (likeVenue P now v timeSlot xs) = xs
        \<or> snd (likeVenue P now v timeSlot xs) = resetInteractionsIfNeeded P now xs"
    if "\<not> fst (canLikeVenue P now v xs)"
  proof (cases "v = []")
    case True
    then show ?thesis by (simp add: likeVenue_def)
  next
    case False
    from likeVenue_rejected[OF this that] show ?thesis .
  qed
  with assms show ?thesis
    by (simp add: performAll_keeps_limit likeVenue_keeps_limit)
qed

text \<open>
  bar1 liked at 03:00: a second like at 04:30 is refused and changes nothing, a third at
  05:30, past the 04:59 boundary, is taken; one like is used and two are counted.
\<close>

theorem dailyLikesUsed_within_limit_witness:
  "list_all withinLikeLimit bar1Liked
   \<and> \<not> fst (canLikeVenue utcPlatform at_0430 ''bar1'' bar1Liked)
   \<and> snd (likeVenue utcPlatform at_0430 ''bar1'' ''22:00'' bar1Liked) = bar1Liked
   \<and> list_all withinLikeLimit (performAll utcPlatform bar1LikedAgain bar1Liked)
   \<and> map_option dailyLikesUsed (findInteraction ''bar1'' (performAll utcPlatform bar1LikedAgain bar1Liked))
     = Some 1
   \<and> getLikeCount ''bar1'' (performAll utcPlatform bar1LikedAgain bar1Liked) = 2"
proof -
  have h: "list_all withinLikeLimit bar1Liked"
    by code_simp
  have n: "\<not> fst (canLikeVenue utcPlatform at_0430 ''bar1'' bar1Liked)"
    by code_simp
  have r: "resetInteractionsIfNeeded utcPlatform at_0430 bar1Liked = bar1Liked"
    by code_simp
  have e: "map_option dailyLikesUsed (findInteraction ''bar1'' (performAll utcPlatform bar1LikedAgain bar1Liked))
           = Some 1"
    "getLikeCount ''bar1'' (performAll utcPlatform bar1LikedAgain bar1Liked) = 2"
    by code_simp+
  from dailyLikesUsed_within_limit [OF h, of utcPlatform bar1LikedAgain at_0430 "''bar1''" "''22:00''"]
    h n r e
  show ?thesis by auto
qed

section \<open>The most popular venues\<close>

lemma getMostPopularVenues_rankedEntries:
  "getMostPopularVenues xs = take 10 (sort_key (\<lambda>a. - snd a) (rankedEntries xs))"
  by (simp add: getMostPopularVenues_def rankedEntries_def)

lemma sort_key_descending:
  "sorted_wrt (\<lambda>a b. snd b \<le> snd a) (sort_key (\<lambda>a. - snd a) (es :: (string \<times> int) list))"
proof -
  have "sorted (map (\<lambda>a. - snd a) (sort_key (\<lambda>a. - snd a) es))"
    by (rule sorted_sort_key)
  then show ?thesis
    by (simp add: sorted_map)
qed

lemma sort_key_ties:
  "filter (\<lambda>a. snd a = k) (sort_key (\<lambda>a. - snd a) (es :: (string \<times> int) list))
   = filter (\<lambda>a. snd a = k) es"
proof -
  have "(\<lambda>a :: string \<times> int. - snd a = - k) = (\<lambda>a. snd a = k)"
    by auto
  with sort_key_stable[of "\<lambda>a. - snd a" "- k" es] show ?thesis
    by simp
qed

text \<open>
  Claim C7, as the code has it. \<^verbatim>\<open>getMostPopularVenues\<close> returns the first ten of the
  entities ordered by cumulative like count descending; entities with the same like count
  stand in the order their records have in the store (the sort is stable and its
  comparator looks at \<open>likes\<close> only).
\<close>

theorem getMostPopularVenues_order:
  "getMostPopularVenues xs = take 10 (sort_key (\<lambda>a. - snd a) (rankedEntries xs))
   \<and> sorted_wrt (\<lambda>a b. snd b \<le> snd a) (sort_key (\<lambda>a. - snd a) (rankedEntries xs))
   \<and> sorted_wrt (\<lambda>a b. snd b \<le> snd a) (getMostPopularVenues xs)
   \<and> (\<forall>k. filter (\<lambda>a. snd a = k) (sort_key (\<lambda>a. - snd a) (rankedEntries xs))
            = filter (\<lambda>a. snd a = k) (rankedEntries xs))"
proof -
  have "sorted_wrt (\<lambda>a b. snd b \<le> snd a) (getMostPopularVenues xs)"
    unfolding getMostPopularVenues_rankedEntries
    using sort_key_descending[of "rankedEntries xs"] by (rule sorted_wrt_take)
  then show ?thesis
    by (simp add: getMostPopularVenues_rankedEntries sort_key_descending sort_key_ties)
qed

text \<open>With five likes each, zebra comes before alpha: the order of the store, not of the identifiers.\<close>

theorem getMostPopularVenues_counterexample:
  "getMostPopularVenues tiedVenues = [(''bravo'', 7), (''zebra'', 5), (''alpha'', 5)]
   \<and> ''alpha'' < ''zebra''"
  by code_simp

section \<open>The popular arrival time\<close>

text \<open>The counts table while no label names a member of \<^verbatim>\<open>Object.prototype\<close>.\<close>

lemma proto_member: "''__proto__'' \<in> set objectPrototypeMembers"
  by (simp add: objectPrototypeMembers_def)

lemma assign_keys: "k \<noteq> ''__proto__'' \<Longrightarrow> fst ` set (assign k v tc) = insert k (fst ` set tc)"
  by (induction k v tc rule: assign.induct) auto

lemma assign_distinct:
  "k \<noteq> ''__proto__'' \<Longrightarrow> distinct (map fst tc) \<Longrightarrow> distinct (map fst (assign k v tc))"
  by (induction k v tc rule: assign.induct) (auto simp: assign_keys)

lemma assign_map_of: "k \<noteq> ''__proto__'' \<Longrightarrow> map_of (assign k v tc) = (map_of tc)(k \<mapsto> v)"
  by (induction k v tc rule: assign.induct) (auto simp: fun_eq_iff)

lemma assign_values: "snd ` set (assign k v tc) \<subseteq> insert v (snd ` set tc)"
  by (induction k v tc rule: assign.induct) auto

lemma plusCount_clean:
  assumes "k \<notin> set objectPrototypeMembers" "Text \<notin> snd ` set tc"
  shows "plusCount tc k n = Count ((case map_of tc k of Some (Count c) \<Rightarrow> c | _ \<Rightarrow> 0) + n)"
proof (cases "map_of tc k")
  case None
  with assms(1) show ?thesis by (simp add: plusCount_def)
next
  case (Some c)
  then have "(k, c) \<in> set tc" by (rule map_of_SomeD)
  with assms(2) have "c \<noteq> Text" by force
  with Some show ?thesis by (cases c) (simp_all add: plusCount_def)
qed

lemma fold_addCount:
  assumes "distinct (map fst tc)" "Text \<notin> snd ` set tc"
    and "\<forall>i \<in> set ys. f i \<notin> set objectPrototypeMembers"
  shows "distinct (map fst (fold (\<lambda>i. addCount (f i) (g i)) ys tc))
       \<and> fst ` set (fold (\<lambda>i. addCount (f i) (g i)) ys tc) = fst ` set tc \<union> f ` set ys
       \<and> Text \<notin> snd ` set (fold (\<lambda>i. addCount (f i) (g i)) ys tc)
       \<and> (\<forall>k. (case map_of (fold (\<lambda>i. addCount (f i) (g i)) ys tc) k of Some (Count c) \<Rightarrow> c | _ \<Rightarrow> 0)
              = (case map_of tc k of Some (Count c) \<Rightarrow> c | _ \<Rightarrow> 0)
                + sum_list (map g (filter (\<lambda>i. f i = k) ys)))"
  using assms
proof (induction ys arbitrary: tc)
  case Nil
  then show ?case by simp
next
  case (Cons y ys)
  from Cons.prems(3) have m: "f y \<notin> set objectPrototypeMembers" by simp
  with proto_member have p: "f y \<noteq> ''__proto__''" by auto
  have pc: "plusCount tc (f y) (g y)
            = Count ((case map_of tc (f y) of Some (Count c) \<Rightarrow> c | _ \<Rightarrow> 0) + g y)"
    using m Cons.prems(2) by (rule plusCount_clean)
  have d: "distinct (map fst (addCount (f y) (g y) tc))"
    unfolding addCount_def using p Cons.prems(1) by (rule assign_distinct)
  have t: "Text \<notin> snd ` set (addCount (f y) (g y) tc)"
    using assign_values[of "f y" "plusCount tc (f y) (g y)" tc] Cons.prems(2)
    unfolding addCount_def pc by auto
  have r: "\<forall>i \<in> set ys. f i \<notin> set objectPrototypeMembers"
    using Cons.prems(3) by simp
  have k: "fst ` set (addCount (f y) (g y) tc) = insert (f y) (fst ` set tc)"
    unfolding addCount_def using p by (rule assign_keys)
  have mo: "map_of (addCount (f y) (g y) tc)
            = (map_of tc)(f y \<mapsto> Count ((case map_of tc (f y) of Some (Count c) \<Rightarrow> c | _ \<Rightarrow> 0) + g y))"
    unfolding addCount_def pc using p by (rule assign_map_of)
  from Cons.IH[OF d t r] show ?case
    by (simp add: k mo Un_commute insert_commute)
qed

lemma qualifying_truthy: "i \<in> set (qualifying v xs) \<Longrightarrow> truthy (arrivalTime i)"
  by (simp add: qualifying_def)

lemma fold_guarded:
  "(\<And>i. i \<in> set ys \<Longrightarrow> truthy (arrivalTime i)) \<Longrightarrow>
   fold (\<lambda>interaction tc. if truthy (arrivalTime interaction)
                           then addCount (the (arrivalTime interaction)) (orZero (count interaction)) tc
                           else tc) ys acc
   = fold (\<lambda>i. addCount (the (arrivalTime i)) (count i)) ys acc"
  by (induction ys arbitrary: acc) simp_all

lemma filter_the_slot:
  "filter (\<lambda>i. the (arrivalTime i) = t) (qualifying v xs)
   = filter (\<lambda>i. arrivalTime i = Some t) (qualifying v xs)"
  by (rule filter_cong) (auto simp: truthy_def dest!: qualifying_truthy split: option.splits)

text \<open>The table \<^verbatim>\<open>getPopularArrivalTime\<close> builds then: one entry a slot, holding the slot's visits.\<close>

lemma timeCounts_table:
  fixes v xs
  defines "tc \<equiv> fold (\<lambda>i. addCount (the (arrivalTime i)) (count i)) (qualifying v xs) []"
  assumes clean: "arrivalSlots v xs \<inter> set objectPrototypeMembers = {}"
  shows "distinct (map fst tc)"
    and "set (map fst tc) = arrivalSlots v xs"
    and "(t, c) \<in> set tc \<Longrightarrow> c = Count (slotVisits v xs t)"
proof -
  have q: "\<forall>i \<in> set (qualifying v xs). the (arrivalTime i) \<notin> set objectPrototypeMembers"
    using clean by (auto simp: arrivalSlots_def)
  have "distinct (map fst ([] :: (string \<times> counted) list))"
    "Text \<notin> snd ` set ([] :: (string \<times> counted) list)"
    by simp_all
  note f = fold_addCount[where g = count, OF this q, simplified]
  show d: "distinct (map fst tc)"
    using f by (simp add: tc_def)
  show "set (map fst tc) = arrivalSlots v xs"
    using f by (simp add: tc_def arrivalSlots_def)
  assume m: "(t, c) \<in> set tc"
  with d have mo: "map_of tc t = Some c" by simp
  from m f have "c \<noteq> Text" unfolding tc_def by force
  then obtain n where n: "c = Count n" by (cases c) auto
  from f have "(case map_of tc t of Some (Count c) \<Rightarrow> c | _ \<Rightarrow> 0) = slotVisits v xs t"
    by (simp add: tc_def slotVisits_def filter_the_slot)
  with mo n show "c = Count (slotVisits v xs t)" by simp
qed

lemma Math_max_counts: "Math_max (Count n) (map Count ns) = Some (fold max ns n)"
proof -
  have "fold (\<lambda>v acc. case acc of None \<Rightarrow> None
                    | Some m \<Rightarrow> (case v of Count x \<Rightarrow> Some (max m x) | Text \<Rightarrow> None))
          (map Count ns) (Some a) = Some (fold max ns a)" for a
    by (induction ns arbitrary: a) (simp_all add: max.commute)
  then show ?thesis by (simp add: Math_max_def)
qed

lemma sort_distinct: "distinct (ys :: string list) \<Longrightarrow> sort ys = sorted_list_of_set (set ys)"
  by (simp add: sorted_list_of_set_sort_remdups distinct_remdups_id)

text \<open>
  For every store in which no arrival slot of the entity names a member of
  \<^verbatim>\<open>Object.prototype\<close>, the result is the sorted list of the slots tied at the maximum,
  joined with a slash, and \<^verbatim>\<open>null\<close> when no record qualifies.
\<close>

lemma getPopularArrivalTime_ties:
  assumes clean: "arrivalSlots v xs \<inter> set objectPrototypeMembers = {}"
  shows "getPopularArrivalTime v xs =
     (if v = [] \<or> arrivalSlots v xs = {} then None
      else Some (join ''/'' (sorted_list_of_set (tiedAtMaximum v xs))))"
proof (cases "v = [] \<or> qualifying v xs = []")
  case True
  then show ?thesis
    by (auto simp: getPopularArrivalTime_def arrivalSlots_def qualifying_def [symmetric])
next
  case False
  define tc where "tc = fold (\<lambda>i. addCount (the (arrivalTime i)) (count i)) (qualifying v xs) []"
  note t = timeCounts_table[where v = v and xs = xs, folded tc_def, OF clean]
  from False have slots: "arrivalSlots v xs \<noteq> {}"
    by (simp add: arrivalSlots_def)
  with t(2) have ne: "tc \<noteq> []" by auto
  have snd_eq: "snd p = Count (slotVisits v xs (fst p))" if "p \<in> set tc" for p
    using t(3)[of "fst p" "snd p"] that by simp
  then have vals_eq: "map snd tc = map Count (map (slotVisits v xs) (map fst tc))"
    by simp
  from ne obtain n ns where ns: "map (slotVisits v xs) (map fst tc) = n # ns"
    by (cases tc) auto
  define m where "m = fold max ns n"
  have mx: "Math_max (Count n) (map Count ns) = Some m"
    by (simp add: Math_max_counts m_def)
  have cs: "map snd tc = Count n # map Count ns"
    unfolding vals_eq ns by simp
  have "set (n # ns) = slotVisits v xs ` arrivalSlots v xs"
    unfolding ns [symmetric] using t(2) by (metis set_map)
  moreover have "m = Max (set (n # ns))"
    unfolding m_def by (rule Max.set_eq_fold [symmetric])
  ultimately have m': "m = Max (slotVisits v xs ` arrivalSlots v xs)"
    by simp
  have tied: "set (map fst (filter (\<lambda>(time, count'). strictEquals count' (Some m)) tc))
              = tiedAtMaximum v xs"
  proof -
    have fin: "finite (slotVisits v xs ` arrivalSlots v xs)"
      by (simp add: arrivalSlots_def)
    have "set (map fst (filter (\<lambda>(time, count'). strictEquals count' (Some m)) tc))
          = {k \<in> arrivalSlots v xs. slotVisits v xs k = m}"
    proof -
      have "strictEquals (snd p) (Some m) = (slotVisits v xs (fst p) = m)" if "p \<in> set tc" for p
        using snd_eq[OF that] by (simp add: strictEquals_def)
      then have "filter (\<lambda>(time, count'). strictEquals count' (Some m)) tc
                 = filter (\<lambda>p. slotVisits v xs (fst p) = m) tc"
        by (intro filter_cong) (auto simp: case_prod_beta)
      then have "set (map fst (filter (\<lambda>(time, count'). strictEquals count' (Some m)) tc))
                 = {k \<in> fst ` set tc. slotVisits v xs k = m}"
        by auto
      with t(2) show ?thesis by simp
    qed
    also have "\<dots> = tiedAtMaximum v xs"
    proof -
      have "(slotVisits v xs k = m) = (\<forall>t' \<in> arrivalSlots v xs. slotVisits v xs t' \<le> slotVisits v xs k)"
        if k: "k \<in> arrivalSlots v xs" for k
      proof
        assume "slotVisits v xs k = m"
        then have "slotVisits v xs k = Max (slotVisits v xs ` arrivalSlots v xs)"
          by (simp add: m')
        with Max_ge[OF fin] show "\<forall>t' \<in> arrivalSlots v xs. slotVisits v xs t' \<le> slotVisits v xs k"
          by auto
      next
        assume a: "\<forall>t' \<in> arrivalSlots v xs. slotVisits v xs t' \<le> slotVisits v xs k"
        have "Max (slotVisits v xs ` arrivalSlots v xs) = slotVisits v xs k"
          using fin a k by (intro Max_eqI) auto
        then show "slotVisits v xs k = m"
          by (simp add: m')
      qed
      then show ?thesis
        by (auto simp: tiedAtMaximum_def)
    qed
    finally show ?thesis .
  qed
  have dist: "distinct (map fst (filter (\<lambda>(time, count'). strictEquals count' (Some m)) tc))"
    using t(1) by (rule distinct_map_filter)
  have fold_eq: "fold (\<lambda>interaction tc. if truthy (arrivalTime interaction)
                           then addCount (the (arrivalTime interaction)) (orZero (count interaction)) tc
                           else tc) (qualifying v xs) [] = tc"
    unfolding tc_def by (rule fold_guarded) (rule qualifying_truthy)
  have "getPopularArrivalTime v xs
        = Some (join ''/'' (sort (map fst (filter (\<lambda>(time, count'). strictEquals count' (Some m)) tc))))"
    using False fold_eq cs mx
    by (simp add: getPopularArrivalTime_def Let_def qualifying_def [symmetric])
  moreover have "sort (map fst (filter (\<lambda>(time, count'). strictEquals count' (Some m)) tc))
                 = sorted_list_of_set (tiedAtMaximum v xs)"
    unfolding sort_distinct[OF dist] tied ..
  ultimately show ?thesis
    using False slots by simp
qed

text \<open>
  Claim C6 at a slot label that names a member of \<^verbatim>\<open>Object.prototype\<close>. \<^verbatim>\<open>timeCounts\<close> is
  a plain object, so \<^verbatim>\<open>timeCounts["constructor"]\<close> reads the inherited function, the sum
  is a string, \<^verbatim>\<open>Math.max\<close> is \<^verbatim>\<open>NaN\<close> and no slot equals it: with three visits under
  22:00, three under 21:00, two under 20:00 and one under \<^verbatim>\<open>constructor\<close> the result is
  the empty string, not \<^verbatim>\<open>"21:00/22:00"\<close>, though those two slots are the ones tied at the
  maximum; without the extra record it is \<^verbatim>\<open>"21:00/22:00"\<close>. With that label as the only
  slot the result is the empty string again, and with \<^verbatim>\<open>__proto__\<close>, which the
  assignment cannot create, it is \<^verbatim>\<open>null\<close>.
\<close>

theorem getPopularArrivalTime_inherited_label:
  "getPopularArrivalTime ''bar1'' tiedSlots = Some ''21:00/22:00''
   \<and> getPopularArrivalTime ''bar1'' tiedSlotsAndConstructor = Some []
   \<and> map (slotVisits ''bar1'' tiedSlotsAndConstructor) [''20:00'', ''21:00'', ''22:00'', ''constructor'']
     = [2, 3, 3, 1]
   \<and> getPopularArrivalTime ''bar1'' constructorSlot = Some []
   \<and> arrivalSlots ''bar1'' constructorSlot = {''constructor''}
   \<and> getPopularArrivalTime ''bar1'' protoSlot = None
   \<and> arrivalSlots ''bar1'' protoSlot = {''__proto__''}"
  by code_simp

end
